theory Spec2Isabelle
  imports Complex_Main "HOL-Library.Product_Lexorder"
begin

section \<open>Timestamps and the ISO calendar\<close>

text \<open>
  An activity's \<^verbatim>\<open>start_date\<close> is a UTC instant with a precision of one second
  (\<^verbatim>\<open>"2024-03-04T07:30:00Z"\<close>). After \<^verbatim>\<open>pd.to_datetime\<close> it is a timestamp; the model
  keeps its civil fields, which are what \<^verbatim>\<open>.dt.year\<close> and \<^verbatim>\<open>.dt.isocalendar()\<close>
  read. The date boundaries of \<^verbatim>\<open>analyze_training_data\<close> are such timestamps too
  (\<^verbatim>\<open>pd.to_datetime(start_date).tz_localize(UTC)\<close> is midnight UTC of the given day).
\<close>

record timestamp =
  ts_year :: int
  ts_month :: nat
  ts_day :: int
  ts_second :: int  \<comment> \<open>seconds since midnight, \<open>0 \<le> ts_second < 86400\<close>\<close>

text \<open>
  Day numbers of the proleptic Gregorian calendar, as the standard library's
  \<^verbatim>\<open>datetime\<close> module computes them (\<^verbatim>\<open>_is_leap\<close>, \<^verbatim>\<open>_days_before_year\<close>,
  \<^verbatim>\<open>_days_before_month\<close>, \<^verbatim>\<open>_ymd2ord\<close>): 1 January of year 1 is day 1.
\<close>

definition is_leap :: "int \<Rightarrow> bool" where
  "is_leap y = (y mod 4 = 0 \<and> (y mod 100 \<noteq> 0 \<or> y mod 400 = 0))"

definition days_before_year :: "int \<Rightarrow> int" where
  "days_before_year year = (let y = year - 1 in y * 365 + y div 4 - y div 100 + y div 400)"

definition DAYS_BEFORE_MONTH :: "int list" where
  "DAYS_BEFORE_MONTH = [-1, 0, 31, 59, 90, 120, 151, 181, 212, 243, 273, 304, 334]"

definition days_before_month :: "int \<Rightarrow> nat \<Rightarrow> int" where
  "days_before_month year month =
     DAYS_BEFORE_MONTH ! month + (if month > 2 \<and> is_leap year then 1 else 0)"

definition ymd2ord :: "int \<Rightarrow> nat \<Rightarrow> int \<Rightarrow> int" where
  "ymd2ord year month day = days_before_year year + days_before_month year month + day"

text \<open>
  The ISO 8601 calendar of a date, which \<^verbatim>\<open>Series.dt.isocalendar()\<close> returns as the
  columns \<^verbatim>\<open>year\<close>, \<^verbatim>\<open>week\<close>, \<^verbatim>\<open>day\<close>. The definitions follow the reference algorithm of
  \<^verbatim>\<open>datetime.date.isocalendar\<close>: week 1 is the week (Monday to Sunday) holding the
  year's first Thursday. Python's \<^verbatim>\<open>divmod\<close> rounds down, as \<open>div\<close> on \<open>int\<close> does.
\<close>

definition isoweek1monday :: "int \<Rightarrow> int" where
  "isoweek1monday year =
     (let firstday = ymd2ord year 1 1;
          firstweekday = (firstday + 6) mod 7;
          week1monday = firstday - firstweekday
      in if firstweekday > 3 then week1monday + 7 else week1monday)"

definition isocalendar :: "int \<Rightarrow> nat \<Rightarrow> int \<Rightarrow> int \<times> int" where
  "isocalendar year month day =
     (let week1monday = isoweek1monday year;
          today = ymd2ord year month day;
          week = (today - week1monday) div 7
      in if week < 0 then (year - 1, (today - isoweek1monday (year - 1)) div 7 + 1)
         else if week \<ge> 52 \<and> today \<ge> isoweek1monday (year + 1) then (year + 1, 1)
         else (year, week + 1))"

definition iso_year_week :: "timestamp \<Rightarrow> int \<times> int" where
  "iso_year_week t = isocalendar (ts_year t) (ts_month t) (ts_day t)"

definition iso_week :: "timestamp \<Rightarrow> int" where
  "iso_week t = snd (iso_year_week t)"

text \<open>
  Timestamps are compared as instants: seconds on the time line.
\<close>

definition instant :: "timestamp \<Rightarrow> int" where
  "instant t = ymd2ord (ts_year t) (ts_month t) (ts_day t) * 86400 + ts_second t"

definition mk_ts :: "int \<Rightarrow> nat \<Rightarrow> int \<Rightarrow> int \<Rightarrow> timestamp" where
  "mk_ts y m d s = \<lparr>ts_year = y, ts_month = m, ts_day = d, ts_second = s\<rparr>"

section \<open>Activities and the paginated feed\<close>

text \<open>
  An activity is a JSON object; the analysis reads five of its keys and checks at run
  time whether they are there, so each is optional in the model (\<open>None\<close>: the key is
  absent, which in the data frame is a missing value, NaN or NaT). A JSON number is
  parsed as an integer or as a float, and the data frame keeps the difference in the
  dtype of a column. Floats are idealised as real numbers: rounding is not modelled.
  Integers are taken to fit in 64 bits, as the frame stores them.
\<close>

datatype number = Integer int | Floating real

record activity =
  id_field :: "int option"                  \<comment> \<open>key \<^verbatim>\<open>id\<close>\<close>
  start_date :: "timestamp option"
  distance :: "number option"               \<comment> \<open>metres\<close>
  moving_time :: "number option"            \<comment> \<open>seconds\<close>
  total_elevation_gain :: "number option"   \<comment> \<open>metres\<close>

text \<open>
  \<^verbatim>\<open>strava_api.get_activities(per_page=100, page=page)\<close> performs one HTTP request and
  returns \<^verbatim>\<open>response.json()\<close> as it is: the JSON array of the page's activities or, when
  the provider refuses (rate limit, authorisation), a JSON object, the error payload,
  of which the model keeps the keys; or the request raises (a network or decoding
  error).
\<close>

datatype response = Page "activity list" | ErrorPayload "string list" | Raises

text \<open>
  What \<^verbatim>\<open>all_activities\<close> holds: the activities of the pages, and the keys of an error
  payload, which \<^verbatim>\<open>extend\<close> appends one by one.
\<close>

datatype item = Activity activity | Key string

text \<open>
  Line 67: the last record of the page carries a start date before the start boundary.
  Without a start boundary, or when the last record has no \<^verbatim>\<open>start_date\<close>, the test is
  skipped.
\<close>

definition before_start :: "timestamp option \<Rightarrow> activity list \<Rightarrow> bool" where
  "before_start start activities =
     (case start of
        None \<Rightarrow> False
      | Some s \<Rightarrow>
          (case start_date (last activities) of
             None \<Rightarrow> False
           | Some last_activity_date \<Rightarrow> instant last_activity_date < instant s))"

text \<open>
  \<^verbatim>\<open>'start_date' in a and pd.to_datetime(a['start_date']) >= start_date\<close> (line 70), and
  the row mask \<^verbatim>\<open>df['start_date'] >= start_date\<close> (line 109), where a missing date
  compares false. No boundary keeps every record.
\<close>

fun not_before :: "timestamp option \<Rightarrow> activity \<Rightarrow> bool" where
  "not_before None a = True"
| "not_before (Some s) a =
     (case start_date a of None \<Rightarrow> False | Some d \<Rightarrow> instant s \<le> instant d)"

fun not_after :: "timestamp option \<Rightarrow> activity \<Rightarrow> bool" where
  "not_after None a = True"
| "not_after (Some e) a =
     (case start_date a of None \<Rightarrow> False | Some d \<Rightarrow> instant d \<le> instant e)"

text \<open>
  The loop of lines 53 to 84. It returns the accumulated \<^verbatim>\<open>all_activities\<close> and the
  value of \<^verbatim>\<open>page\<close> at the \<^verbatim>\<open>break\<close>: pages are requested in the order 1, 2, 3, ..., so
  this is also the number of requests made. An empty JSON object is falsy, like an
  empty list (line 58). With a start boundary, \<^verbatim>\<open>activities[-1]\<close> on a JSON object
  raises \<^verbatim>\<open>KeyError\<close> (line 64), which the handler of line 82 turns into a \<^verbatim>\<open>break\<close>;
  without one, line 76 appends the object's keys and the loop goes on. A feed that
  never ends the loop keeps it running: the result is then \<open>None\<close>.
\<close>

partial_function (option) fetch_loop ::
  "(nat \<Rightarrow> response) \<Rightarrow> timestamp option \<Rightarrow> nat \<Rightarrow> item list
     \<Rightarrow> (item list \<times> nat) option" where
  "fetch_loop get_activities start page all_activities =
     (case get_activities page of
        Raises \<Rightarrow> Some (all_activities, page)
      | ErrorPayload keys \<Rightarrow>
          if keys = [] then Some (all_activities, page)
          else if start \<noteq> None then Some (all_activities, page)
          else fetch_loop get_activities start (page + 1) (all_activities @ map Key keys)
      | Page activities \<Rightarrow>
          if activities = [] then Some (all_activities, page)
          else if before_start start activities
          then Some (all_activities @ map Activity (filter (not_before start) activities), page)
          else fetch_loop get_activities start (page + 1)
                 (all_activities @ map Activity activities))"

declare fetch_loop.simps [code]

section \<open>The weekly table\<close>

text \<open>
  The columns of \<^verbatim>\<open>pd.DataFrame(all_activities)\<close>, for a list of activities, are the keys
  that occur in at least one record. Rows are filtered later; columns stay.
\<close>

definition has_key :: "string \<Rightarrow> activity \<Rightarrow> bool" where
  "has_key col a =
     (if col = ''id'' then id_field a \<noteq> None
      else if col = ''start_date'' then start_date a \<noteq> None
      else if col = ''distance'' then distance a \<noteq> None
      else if col = ''moving_time'' then moving_time a \<noteq> None
      else if col = ''total_elevation_gain'' then total_elevation_gain a \<noteq> None
      else False)"

definition columns :: "activity list \<Rightarrow> string list" where
  "columns all_activities =
     [col \<leftarrow> [''id'', ''start_date'', ''distance'', ''moving_time'', ''total_elevation_gain''].
        list_ex (has_key col) all_activities]"

definition required_columns :: "string list" where
  "required_columns = [''start_date'', ''distance'', ''moving_time'', ''total_elevation_gain'']"

text \<open>
  The dtype of a numeric column, fixed when the frame is built: \<^verbatim>\<open>int64\<close> when every
  record has an integer there, \<^verbatim>\<open>float64\<close> as soon as one value is a float or is
  missing. Filtering rows does not change it.
\<close>

datatype dtype = Int64 | Float64

definition column_dtype :: "(activity \<Rightarrow> number option) \<Rightarrow> activity list \<Rightarrow> dtype" where
  "column_dtype col all_activities =
     (if list_all (\<lambda>a. case col a of Some (Integer n) \<Rightarrow> True | _ \<Rightarrow> False) all_activities
      then Int64 else Float64)"

record dtypes =
  distance_dtype :: dtype
  moving_time_dtype :: dtype
  elevation_dtype :: dtype

definition frame_dtypes :: "activity list \<Rightarrow> dtypes" where
  "frame_dtypes all_activities =
     \<lparr>distance_dtype = column_dtype distance all_activities,
      moving_time_dtype = column_dtype moving_time all_activities,
      elevation_dtype = column_dtype total_elevation_gain all_activities\<rparr>"

definition date_filter ::
  "timestamp option \<Rightarrow> timestamp option \<Rightarrow> activity list \<Rightarrow> activity list" where
  "date_filter start end_date df = filter (not_after end_date) (filter (not_before start) df)"

text \<open>
  The grouping key of a row (lines 118 to 124): the calendar year of the start date
  (\<^verbatim>\<open>.dt.year\<close>) and its ISO week number (\<^verbatim>\<open>.dt.isocalendar().week\<close>). A row without a
  start date has no key, and \<^verbatim>\<open>groupby\<close> leaves it out of every group.
\<close>

definition bucket :: "activity \<Rightarrow> (int \<times> int) option" where
  "bucket a = map_option (\<lambda>t. (ts_year t, iso_week t)) (start_date a)"

fun dropna :: "'a option list \<Rightarrow> 'a list" where
  "dropna [] = []"
| "dropna (None # xs) = dropna xs"
| "dropna (Some x # xs) = x # dropna xs"

text \<open>\<^verbatim>\<open>groupby\<close> yields one group per distinct key, in ascending order of the keys.\<close>

definition group_keys :: "activity list \<Rightarrow> (int \<times> int) list" where
  "group_keys df = sort (remdups (dropna (map bucket df)))"

definition group_rows :: "activity list \<Rightarrow> int \<times> int \<Rightarrow> activity list" where
  "group_rows df k = [a \<leftarrow> df. bucket a = Some k]"

text \<open>
  The \<^verbatim>\<open>'sum'\<close> of a group's values in a column. In an \<^verbatim>\<open>int64\<close> column the sum is
  taken in 64-bit two's complement and wraps around; in a \<^verbatim>\<open>float64\<close> column the values
  that are present are added as floats.
\<close>

definition int64 :: "int \<Rightarrow> int" where
  "int64 n = (n + 2 ^ 63) mod 2 ^ 64 - 2 ^ 63"

fun as_float :: "number \<Rightarrow> real" where
  "as_float (Integer n) = real_of_int n"
| "as_float (Floating x) = x"

fun integers :: "number list \<Rightarrow> int list" where
  "integers [] = []"
| "integers (Integer n # xs) = n # integers xs"
| "integers (Floating x # xs) = integers xs"

definition column_sum :: "dtype \<Rightarrow> number option list \<Rightarrow> real" where
  "column_sum dt values =
     (case dt of
        Int64 \<Rightarrow> real_of_int (int64 (sum_list (integers (dropna values))))
      | Float64 \<Rightarrow> sum_list (map as_float (dropna values)))"

text \<open>
  Float division as the data frame performs it: dividing by zero raises nothing and
  yields an infinity or NaN.
\<close>

datatype float64 = Finite real | PosInf | NegInf | NaN

definition fdiv :: "real \<Rightarrow> real \<Rightarrow> float64" where
  "fdiv a b =
     (if b \<noteq> 0 then Finite (a / b)
      else if a > 0 then PosInf
      else if a < 0 then NegInf
      else NaN)"

record weekly_stat =
  year :: int
  week :: int
  total_distance_km :: real
  total_time_minutes :: real
  total_elevation_meters :: real
  number_of_activities :: nat
  total_time_hours :: real
  average_speed_kmh :: float64

text \<open>
  One row of \<^verbatim>\<open>weekly_stats\<close> (lines 124 to 139), for a frame with the dtypes \<open>dt\<close>.
  \<^verbatim>\<open>'count'\<close> counts the ids that are present. The column named \<^verbatim>\<open>total_time_minutes\<close>
  holds the plain sum of \<^verbatim>\<open>moving_time\<close>.
\<close>

definition weekly_row :: "dtypes \<Rightarrow> activity list \<Rightarrow> int \<times> int \<Rightarrow> weekly_stat" where
  "weekly_row dt df k =
     (let g = group_rows df k;
          distance_sum = column_sum (distance_dtype dt) (map distance g);
          moving_time_sum = column_sum (moving_time_dtype dt) (map moving_time g);
          elevation_sum = column_sum (elevation_dtype dt) (map total_elevation_gain g);
          id_count = length (dropna (map id_field g));
          km = distance_sum / 1000;
          hours = moving_time_sum / 60
      in \<lparr>year = fst k, week = snd k,
          total_distance_km = km,
          total_time_minutes = moving_time_sum,
          total_elevation_meters = elevation_sum,
          number_of_activities = id_count,
          total_time_hours = hours,
          average_speed_kmh = fdiv km hours\<rparr>)"

definition weekly_table :: "dtypes \<Rightarrow> activity list \<Rightarrow> weekly_stat list" where
  "weekly_table dt df = map (weekly_row dt df) (group_keys df)"

text \<open>
  The four places where \<^verbatim>\<open>analyze_training_data\<close> returns \<^verbatim>\<open>(None, None)\<close>: nothing
  fetched (line 90), a required column missing (line 102), no row left by the date
  filter (line 115), and the handler of line 162 for an exception raised while
  processing.
\<close>

datatype failure =
  NoActivities
| MissingColumns "string list"
| NoActivitiesAfterFilter
| ProcessingError

text \<open>
  Lines 97 to 164, for a frame built from activities only. Two statements of the
  \<^verbatim>\<open>try\<close> block raise: aggregating the column \<^verbatim>\<open>id\<close> of a frame that has no such column
  (\<^verbatim>\<open>KeyError\<close>, line 124), and \<^verbatim>\<open>json.dump\<close> of the summary (\<^verbatim>\<open>TypeError\<close>, line 158) when
  the total elevation is the sum of an \<^verbatim>\<open>int64\<close> column, a \<^verbatim>\<open>numpy.int64\<close> that the
  encoder refuses; the other entries of the summary are floats or a plain \<^verbatim>\<open>int\<close>. The
  handler of line 162 catches both. The model returns the weekly table, the first
  component of the returned pair; the summary is computed from it, and the three
  files are taken to be writable.
\<close>

definition process_frame ::
  "activity list \<Rightarrow> timestamp option \<Rightarrow> timestamp option \<Rightarrow> failure + weekly_stat list" where
  "process_frame all_activities start end_date =
     (let missing_columns = [col \<leftarrow> required_columns. col \<notin> set (columns all_activities)]
      in if missing_columns \<noteq> [] then Inl (MissingColumns missing_columns)
         else let df = date_filter start end_date all_activities
              in if length df = 0 then Inl NoActivitiesAfterFilter
                 else if ''id'' \<notin> set (columns all_activities) then Inl ProcessingError
                 else if column_dtype total_elevation_gain all_activities = Int64
                 then Inl ProcessingError
                 else Inr (weekly_table (frame_dtypes all_activities) df))"

text \<open>
  Line 95 on what the loop gathered. When the list starts with a key of an error
  payload, a string, \<^verbatim>\<open>pd.DataFrame\<close> makes a frame of one column named \<^verbatim>\<open>0\<close>, and all
  four required columns are missing. When it starts with an activity and holds a key
  further on, \<^verbatim>\<open>pd.DataFrame\<close> asks every item for its keys and raises
  \<^verbatim>\<open>AttributeError\<close> on the string, inside the \<^verbatim>\<open>try\<close> block.
\<close>

fun is_key :: "item \<Rightarrow> bool" where
  "is_key (Key k) = True"
| "is_key (Activity a) = False"

fun activities_of :: "item list \<Rightarrow> activity list" where
  "activities_of [] = []"
| "activities_of (Activity a # xs) = a # activities_of xs"
| "activities_of (Key k # xs) = activities_of xs"

definition process_data ::
  "item list \<Rightarrow> timestamp option \<Rightarrow> timestamp option \<Rightarrow> failure + weekly_stat list" where
  "process_data all_activities start end_date =
     (case all_activities of
        Key k # rest \<Rightarrow> Inl (MissingColumns required_columns)
      | _ \<Rightarrow>
          if list_ex is_key all_activities then Inl ProcessingError
          else process_frame (activities_of all_activities) start end_date)"

definition analyze_training_data ::
  "(nat \<Rightarrow> response) \<Rightarrow> timestamp option \<Rightarrow> timestamp option
     \<Rightarrow> (failure + weekly_stat list) option" where
  "analyze_training_data get_activities start end_date =
     (case fetch_loop get_activities start 1 [] of
        None \<Rightarrow> None
      | Some (all_activities, page) \<Rightarrow>
          Some (if all_activities = [] then Inl NoActivities
                else process_data all_activities start end_date))"

text \<open>
  A server that holds a finite feed and serves it in pages of \<open>per_page\<close> records:
  page \<open>p\<close> holds the records from position \<open>(p - 1) * per_page\<close> on.
\<close>

definition paged_feed :: "activity list \<Rightarrow> nat \<Rightarrow> nat \<Rightarrow> response" where
  "paged_feed feed per_page page = Page (take per_page (drop ((page - 1) * per_page) feed))"

section \<open>The halting condition, spelled out\<close>

text \<open>
  The statement about the loop is made in words of its own, not in those of the
  loop's definition. A page ends the loop when the request raises, when the answer is
  an empty array or an empty object, when it is an error payload and a start boundary
  is given, or when it is an array whose last record has a start date before the
  start boundary.
\<close>

definition stops :: "(nat \<Rightarrow> response) \<Rightarrow> timestamp option \<Rightarrow> nat \<Rightarrow> bool" where
  "stops get_activities start page =
     (case get_activities page of
        Raises \<Rightarrow> True
      | ErrorPayload keys \<Rightarrow> keys = [] \<or> start \<noteq> None
      | Page activities \<Rightarrow>
          activities = [] \<or>
          (case start of
             None \<Rightarrow> False
           | Some s \<Rightarrow>
               (case start_date (last activities) of
                  None \<Rightarrow> False
                | Some d \<Rightarrow> instant d < instant s)))"

text \<open>
  What a page that does not end the loop adds to \<^verbatim>\<open>all_activities\<close>, and what the page
  that ends it adds: of an array, the records whose start date is not before the
  boundary; of anything else, nothing.
\<close>

fun page_items :: "response \<Rightarrow> item list" where
  "page_items (Page activities) = map Activity activities"
| "page_items (ErrorPayload keys) = map Key keys"
| "page_items Raises = []"

definition last_items :: "timestamp option \<Rightarrow> response \<Rightarrow> item list" where
  "last_items start r =
     (case r of
        Page activities \<Rightarrow>
          map Activity
            [a \<leftarrow> activities.
               case start of
                 None \<Rightarrow> True
               | Some s \<Rightarrow> (case start_date a of None \<Rightarrow> False | Some d \<Rightarrow> instant s \<le> instant d)]
      | _ \<Rightarrow> [])"

text \<open>
  When the loop stops at page \<open>k\<close> after starting at page \<open>p\<close>, it has gathered the
  pages \<open>p, ..., k - 1\<close> whole and the last items of page \<open>k\<close>.
\<close>

definition gathered ::
  "(nat \<Rightarrow> response) \<Rightarrow> timestamp option \<Rightarrow> nat \<Rightarrow> nat \<Rightarrow> item list" where
  "gathered get_activities start p k =
     concat (map (\<lambda>j. page_items (get_activities j)) [p..<k])
       @ last_items start (get_activities k)"

section \<open>The credentials file\<close>

text \<open>
  \<^verbatim>\<open>get_credentials\<close> reads a text file, taken here as ASCII text. Opening it yields
  its lines (\<^verbatim>\<open>readlines\<close> keeps each line's newline) or raises.
\<close>

datatype exn = FileNotFoundError | OSError | ValueError | RequestException

text \<open>The characters that \<^verbatim>\<open>str.strip()\<close> removes from both ends.\<close>

definition isspace :: "char \<Rightarrow> bool" where
  "isspace c = (c \<in> set [CHR 0x09, CHR 0x0A, CHR 0x0B, CHR 0x0C, CHR 0x0D,
                          CHR 0x1C, CHR 0x1D, CHR 0x1E, CHR 0x1F, CHR 0x20])"

definition lstrip :: "string \<Rightarrow> string" where
  "lstrip s = dropWhile isspace s"

definition rstrip :: "string \<Rightarrow> string" where
  "rstrip s = rev (dropWhile isspace (rev s))"

definition strip :: "string \<Rightarrow> string" where
  "strip s = rstrip (lstrip s)"

text \<open>\<^verbatim>\<open>s.split(sep)\<close> for a separator of one character: it cuts at every occurrence.\<close>

fun str_split :: "char \<Rightarrow> string \<Rightarrow> string list" where
  "str_split sep [] = [[]]"
| "str_split sep (c # cs) =
     (if c = sep then [] # str_split sep cs
      else (case str_split sep cs of
              w # ws \<Rightarrow> (c # w) # ws
            | [] \<Rightarrow> [[c]]))"

text \<open>
  The loop of lines 19 to 22. Unpacking \<^verbatim>\<open>key, value = ...\<close> raises \<^verbatim>\<open>ValueError\<close>
  unless the split has exactly two parts.
\<close>

fun read_lines :: "string list \<Rightarrow> (string \<rightharpoonup> string) \<Rightarrow> exn + (string \<rightharpoonup> string)" where
  "read_lines [] credentials = Inr credentials"
| "read_lines (line # lines) credentials =
     (if CHR ''='' \<in> set line
      then (case str_split CHR ''='' (strip line) of
              [key, val] \<Rightarrow> read_lines lines (credentials(strip key \<mapsto> strip val))
            | _ \<Rightarrow> Inl ValueError)
      else read_lines lines credentials)"

text \<open>The body of the \<^verbatim>\<open>try\<close> block (lines 16 to 27).\<close>

definition try_get_credentials :: "exn + string list \<Rightarrow> exn + string \<times> string" where
  "try_get_credentials file =
     (case file of
        Inl e \<Rightarrow> Inl e
      | Inr lines \<Rightarrow>
          (case read_lines lines Map.empty of
             Inl e \<Rightarrow> Inl e
           | Inr credentials \<Rightarrow>
               (case (credentials ''client_id'', credentials ''client_secret'') of
                  (Some client_id, Some client_secret) \<Rightarrow> Inr (client_id, client_secret)
                | _ \<Rightarrow> Inl ValueError)))"

text \<open>Both handlers end the process with \<^verbatim>\<open>exit(1)\<close>.\<close>

datatype 'a outcome = Return 'a | Exit int

definition get_credentials :: "exn + string list \<Rightarrow> (string \<times> string) outcome" where
  "get_credentials file =
     (case try_get_credentials file of
        Inr creds \<Rightarrow> Return creds
      | Inl FileNotFoundError \<Rightarrow> Exit 1
      | Inl e \<Rightarrow> Exit 1)"

section \<open>The OAuth callback\<close>

text \<open>
  A request that reaches the local listener. For a GET request the model keeps
  \<^verbatim>\<open>params = parse_qs(urlparse(self.path).query)\<close>: the query's parameter names, each
  with the list of its values. Any other method is answered by the HTTP server itself
  and never reaches \<^verbatim>\<open>do_GET\<close>.
\<close>

datatype request = GET "string \<rightharpoonup> string list" | OtherMethod

text \<open>
  \<^verbatim>\<open>OAuthHandler.do_GET\<close> (lines 41 to 55): the new value of \<^verbatim>\<open>server.auth_code\<close> and the
  body written. An exception in a handler is caught by the server, which carries on.
\<close>

definition do_GET :: "(string \<rightharpoonup> string list) \<Rightarrow> string option \<Rightarrow> string option \<times> string" where
  "do_GET params auth_code =
     (case params ''code'' of
        Some (code # _) \<Rightarrow>
          (Some code, ''Authentication successful! You can close this window.'')
      | Some [] \<Rightarrow> (auth_code, [])
      | None \<Rightarrow> (auth_code, ''Authentication failed. Please try again.''))"

definition handle_request :: "request \<Rightarrow> string option \<Rightarrow> string option" where
  "handle_request r auth_code =
     (case r of GET params \<Rightarrow> fst (do_GET params auth_code) | OtherMethod \<Rightarrow> auth_code)"

definition token_url :: string where
  "token_url = ''https://www.strava.com/oauth/token''"

text \<open>
  \<^verbatim>\<open>get_access_token\<close> (lines 57 to 80). \<open>inbox\<close> holds the requests that arrive at the
  listener, in order; \<^verbatim>\<open>server.handle_request()\<close> blocks until the first arrives and
  serves it (with no request at all the function never returns: \<open>None\<close>). \<open>post\<close> is
  \<^verbatim>\<open>requests.post(url, data=data)\<close> followed by \<^verbatim>\<open>.json()\<close>: the parsed payload, or an
  exception. The result is what the function returns (\<open>Inr None\<close> for \<^verbatim>\<open>None\<close>), or the
  exception it lets through, with the requests left unserved.
\<close>

definition get_access_token ::
  "string \<Rightarrow> string \<Rightarrow> request list \<Rightarrow> (string \<Rightarrow> (string \<times> string) list \<Rightarrow> exn + 'json)
     \<Rightarrow> ((exn + 'json option) \<times> request list) option" where
  "get_access_token client_id client_secret inbox post =
     (case inbox of
        [] \<Rightarrow> None
      | r # pending \<Rightarrow>
          Some (case handle_request r None of
                  None \<Rightarrow> Inr None
                | Some auth_code \<Rightarrow>
                    if auth_code \<noteq> []
                    then (case post token_url
                                 [(''client_id'', client_id),
                                  (''client_secret'', client_secret),
                                  (''code'', auth_code),
                                  (''grant_type'', ''authorization_code'')] of
                            Inl e \<Rightarrow> Inl e
                          | Inr payload \<Rightarrow> Inr (Some payload))
                    else Inr None,
                pending))"

section \<open>Example feeds\<close>

text \<open>
  A run as the provider reports it: the distance and the elevation gain as floats, the
  moving time as an integer.
\<close>

definition run :: "int \<Rightarrow> timestamp \<Rightarrow> real \<Rightarrow> int \<Rightarrow> activity" where
  "run i t d m =
     \<lparr>id_field = Some i, start_date = Some t, distance = Some (Floating d),
      moving_time = Some (Integer m), total_elevation_gain = Some (Floating 0)\<rparr>"

definition season_start :: timestamp where
  "season_start = mk_ts 2024 9 1 0"

definition season_end :: timestamp where
  "season_end = mk_ts 2025 4 21 0"

definition old_run :: activity where
  "old_run = run 7 (mk_ts 2023 5 14 27000) 8000 2700"

text \<open>Two pages, newest first; the second ends before the start of the season.\<close>

definition two_pages :: "nat \<Rightarrow> response" where
  "two_pages page =
     (if page = 1 then Page [run 4 (mk_ts 2025 5 2 61200) 12000 4000,
                           run 3 (mk_ts 2025 1 11 36000) 5000 1800]
      else if page = 2 then Page [run 2 (mk_ts 2024 10 6 30600) 10000 3600, old_run]
      else Page [])"

text \<open>
  Two pages of one run each; the first run starts at the very instant of the start of
  the season.
\<close>

definition exact_pages :: "nat \<Rightarrow> response" where
  "exact_pages page =
     (if page = 1 then Page [run 5 (mk_ts 2024 9 1 0) 3000 1200]
      else if page = 2 then Page [old_run]
      else Page [])"

text \<open>A provider that answers every request with the same error payload.\<close>

definition rate_limited :: "nat \<Rightarrow> response" where
  "rate_limited page = ErrorPayload [''message'', ''errors'']"

text \<open>A page of runs followed by an error payload and then the empty page.\<close>

definition interrupted :: "nat \<Rightarrow> response" where
  "interrupted page =
     (if page = 1 then Page [run 3 (mk_ts 2025 1 11 36000) 5000 1800]
      else if page = 2 then ErrorPayload [''message'', ''errors'']
      else Page [])"

definition new_year_feed :: "activity list" where
  "new_year_feed = [run 1 (mk_ts 2024 1 1 27000) 5000 1800, run 2 (mk_ts 2023 12 31 27000) 10000 3600]"

definition boundary_feed :: "activity list" where
  "boundary_feed = [run 1 (mk_ts 2024 12 30 27000) 5000 1800, run 2 (mk_ts 2024 1 1 27000) 10000 3600]"

text \<open>
  Three runs of the calendar year 2024: on 30 December, in March, and on 1 January.
\<close>

definition calendar_year_feed :: "activity list" where
  "calendar_year_feed =
     [run 3 (mk_ts 2024 12 30 27000) 5000 1800,
      run 2 (mk_ts 2024 3 6 64800) 10000 3600,
      run 1 (mk_ts 2024 1 1 27000) 8000 2700]"

text \<open>
  Three runs with the distances 5000, 10000 and 0 and the moving times 1800, 3600 and
  600: once in ISO week 10 of 2024, once in ISO week 1 of 2025, which begins on Monday
  30 December 2024.
\<close>

definition synthetic_feed :: "activity list" where
  "synthetic_feed =
     [run 1 (mk_ts 2024 3 9 32400) 5000 1800,
      run 2 (mk_ts 2024 3 6 64800) 10000 3600,
      run 3 (mk_ts 2024 3 4 27000) 0 600]"

definition new_year_week_feed :: "activity list" where
  "new_year_week_feed =
     [run 3 (mk_ts 2025 1 4 32400) 0 600,
      run 2 (mk_ts 2025 1 1 64800) 10000 3600,
      run 1 (mk_ts 2024 12 30 27000) 5000 1800]"

definition zero_time_feed :: "activity list" where
  "zero_time_feed =
     [run 1 (mk_ts 2024 3 12 32400) 0 0,
      run 2 (mk_ts 2024 3 6 64800) 5000 0]"

definition bare :: activity where
  "bare = \<lparr>id_field = None, start_date = None, distance = None, moving_time = None,
           total_elevation_gain = None\<rparr>"

definition no_id_feed :: "activity list" where
  "no_id_feed =
     [(run 1 (mk_ts 2024 3 9 32400) 5000 1800)\<lparr>id_field := None\<rparr>,
      (run 2 (mk_ts 2024 3 6 64800) 10000 3600)\<lparr>id_field := None\<rparr>]"

text \<open>
  Feeds at the edges of the frame: runs whose elevation gain is the integer 0, two
  runs of week 10 of 2024 with a moving time of \<open>2 ^ 62\<close> seconds each, and a provider
  that refuses the first request and has nothing more.
\<close>

definition treadmill_feed :: "activity list" where
  "treadmill_feed =
     [(run 1 (mk_ts 2024 3 9 32400) 5000 1800)\<lparr>total_elevation_gain := Some (Integer 0)\<rparr>,
      (run 2 (mk_ts 2024 3 6 64800) 10000 3600)\<lparr>total_elevation_gain := Some (Integer 0)\<rparr>]"

definition endless_feed :: "activity list" where
  "endless_feed =
     [run 1 (mk_ts 2024 3 9 32400) 5000 (2 ^ 62),
      run 2 (mk_ts 2024 3 6 64800) 10000 (2 ^ 62)]"

definition refused_once :: "nat \<Rightarrow> response" where
  "refused_once page =
     (if page = 1 then ErrorPayload [''message'', ''errors''] else Page [])"

definition zero_time_rows :: "weekly_stat list" where
  "zero_time_rows =
     [\<lparr>year = 2024, week = 10, total_distance_km = 5, total_time_minutes = 0,
       total_elevation_meters = 0, number_of_activities = 1, total_time_hours = 0,
       average_speed_kmh = PosInf\<rparr>,
      \<lparr>year = 2024, week = 11, total_distance_km = 0, total_time_minutes = 0,
       total_elevation_meters = 0, number_of_activities = 1, total_time_hours = 0,
       average_speed_kmh = NaN\<rparr>]"

definition season_rows :: "weekly_stat list" where
  "season_rows =
     [\<lparr>year = 2024, week = 40, total_distance_km = 10, total_time_minutes = 3600,
       total_elevation_meters = 0, number_of_activities = 1, total_time_hours = 60,
       average_speed_kmh = Finite (1 / 6)\<rparr>,
      \<lparr>year = 2025, week = 2, total_distance_km = 5, total_time_minutes = 1800,
       total_elevation_meters = 0, number_of_activities = 1, total_time_hours = 30,
       average_speed_kmh = Finite (1 / 6)\<rparr>]"

text \<open>
  What a bucket reports, in the words of the specification: its key, the total
  distance in km, the number of activities and the total time in hours. And the
  fetched activities whose start timestamp falls in a given ISO year and week.
\<close>

definition reports :: "weekly_stat \<Rightarrow> (int \<times> int) \<times> real \<times> nat \<times> real" where
  "reports row =
     ((year row, week row), total_distance_km row, number_of_activities row,
      total_time_hours row)"

definition in_iso_week :: "int \<times> int \<Rightarrow> activity list \<Rightarrow> activity list" where
  "in_iso_week yw feed = [a \<leftarrow> feed. map_option iso_year_week (start_date a) = Some yw]"

text \<open>Example credentials files, as lists of lines.\<close>

definition credentials_file :: "string list" where
  "credentials_file =
     [''client_id = 153827'' @ [CHR 0x0A],
      ''client_secret = s3cr3t'' @ [CHR 0x0A]]"

definition commented_file :: "string list" where
  "commented_file =
     [''# Strava API'' @ [CHR 0x0A],
      ''client_id = 153827'' @ [CHR 0x0A],
      [CHR 0x0A],
      ''client_secret = s3cr3t'' @ [CHR 0x0A]]"

definition padded_secret_file :: "string list" where
  "padded_secret_file =
     [''client_id = 153827'' @ [CHR 0x0A],
      ''client_secret = c2VjcmV0=='' @ [CHR 0x0A]]"

text \<open>
  Example callbacks: the provider redirects with a code, or with an error when the
  user denies access. The example token endpoint answers one form only.
\<close>

definition approved_params :: "string \<rightharpoonup> string list" where
  "approved_params = [''state'' \<mapsto> [''''], ''code'' \<mapsto> [''4f1c9a''],
                      ''scope'' \<mapsto> [''read,activity:read_all'']]"

definition denied_params :: "string \<rightharpoonup> string list" where
  "denied_params = [''state'' \<mapsto> [''''], ''error'' \<mapsto> [''access_denied'']]"

definition token_endpoint :: "string \<Rightarrow> (string \<times> string) list \<Rightarrow> exn + string" where
  "token_endpoint url form =
     (if url = ''https://www.strava.com/oauth/token''
         \<and> form = [(''client_id'', ''153827''), (''client_secret'', ''s3cr3t''),
                    (''code'', ''4f1c9a''), (''grant_type'', ''authorization_code'')]
      then Inr ''{access_token, refresh_token, expires_at}''
      else Inl RequestException)"

section \<open>The fetch loop\<close>

lemmas calendar_defs = instant_def ymd2ord_def days_before_year_def days_before_month_def
  DAYS_BEFORE_MONTH_def is_leap_def mk_ts_def isocalendar_def isoweek1monday_def
  iso_year_week_def iso_week_def Let_def

lemmas feed_defs = run_def old_run_def season_start_def season_end_def two_pages_def

lemma not_before_cases:
  "not_before start a =
     (case start of
        None \<Rightarrow> True
      | Some s \<Rightarrow> (case start_date a of None \<Rightarrow> False | Some d \<Rightarrow> instant s \<le> instant d))"
  by (cases start) simp_all

lemma filter_not_before:
  "filter (not_before start) activities =
     [a \<leftarrow> activities.
        case start of
          None \<Rightarrow> True
        | Some s \<Rightarrow> (case start_date a of None \<Rightarrow> False | Some d \<Rightarrow> instant s \<le> instant d)]"
  by (rule filter_cong) (simp_all only: not_before_cases)

lemma fetch_loop_stop:
  "stops api start p \<Longrightarrow>
   fetch_loop api start p acc = Some (acc @ last_items start (api p), p)"
  by (subst fetch_loop.simps)
     (auto simp: stops_def before_start_def last_items_def filter_not_before
           split: response.splits option.splits)

lemma fetch_loop_continue:
  "\<not> stops api start p \<Longrightarrow>
   fetch_loop api start p acc = fetch_loop api start (p + 1) (acc @ page_items (api p))"
  by (subst fetch_loop.simps)
     (auto simp: stops_def before_start_def split: response.splits option.splits)

lemma gathered_step:
  "p < k \<Longrightarrow> gathered api start p k = page_items (api p) @ gathered api start (Suc p) k"
  by (simp add: gathered_def upt_conv_Cons)

lemma fetch_loop_first_stop:
  assumes "p \<le> k" "stops api start k" "\<forall>j. p \<le> j \<and> j < k \<longrightarrow> \<not> stops api start j"
  shows "fetch_loop api start p acc = Some (acc @ gathered api start p k, k)"
  using assms
proof (induction "k - p" arbitrary: p acc)
  case 0
  then have "p = k" by simp
  with "0.prems" show ?case by (simp add: fetch_loop_stop gathered_def)
next
  case (Suc n)
  then have lt: "p < k" and ns: "\<not> stops api start p" by auto
  have "fetch_loop api start (Suc p) (acc @ page_items (api p))
          = Some ((acc @ page_items (api p)) @ gathered api start (Suc p) k, k)"
    using Suc.prems Suc.hyps(2) lt by (intro Suc.hyps(1)) auto
  then show ?case using ns lt by (simp add: fetch_loop_continue gathered_step)
qed

lemma fetch_loop_returns:
  assumes "fetch_loop api start p acc = Some (r, k)"
  shows "p \<le> k \<and> stops api start k \<and> (\<forall>j. p \<le> j \<and> j < k \<longrightarrow> \<not> stops api start j)
         \<and> r = acc @ gathered api start p k"
proof -
  let ?P = "\<lambda>api start p acc y. p \<le> snd y \<and> stops api start (snd y)
      \<and> (\<forall>j. p \<le> j \<and> j < snd y \<longrightarrow> \<not> stops api start j)
      \<and> fst y = acc @ gathered api start p (snd y)"
  have "?P api start p acc (r, k)"
  proof (rule fetch_loop.raw_induct [where P = ?P, OF _ assms], goal_cases)
    case (1 f api start p acc y)
    show ?case
    proof (cases "stops api start p")
      case True
      have "(case api p of
               Page activities \<Rightarrow>
                 if activities = [] then Some (acc, p)
                 else if before_start start activities
                      then Some (acc @ map Activity (filter (not_before start) activities), p)
                      else f api start (p + 1) (acc @ map Activity activities)
             | ErrorPayload keys \<Rightarrow>
                 if keys = [] then Some (acc, p)
                 else if start \<noteq> None then Some (acc, p)
                 else f api start (p + 1) (acc @ map Key keys)
             | Raises \<Rightarrow> Some (acc, p))
            = Some (acc @ last_items start (api p), p)"
        using True
        by (auto simp: stops_def before_start_def last_items_def filter_not_before
                 split: response.splits option.splits)
      with 1(2) have "y = (acc @ last_items start (api p), p)" by simp
      with True show ?thesis by (auto simp: gathered_def)
    next
      case False
      have "(case api p of
               Page activities \<Rightarrow>
                 if activities = [] then Some (acc, p)
                 else if before_start start activities
                      then Some (acc @ map Activity (filter (not_before start) activities), p)
                      else f api start (p + 1) (acc @ map Activity activities)
             | ErrorPayload keys \<Rightarrow>
                 if keys = [] then Some (acc, p)
                 else if start \<noteq> None then Some (acc, p)
                 else f api start (p + 1) (acc @ map Key keys)
             | Raises \<Rightarrow> Some (acc, p))
            = f api start (p + 1) (acc @ page_items (api p))"
        using False
        by (auto simp: stops_def before_start_def split: response.splits option.splits)
      with 1(2) have "f api start (p + 1) (acc @ page_items (api p)) = Some y" by simp
      from 1(1) [OF this] have ih: "p + 1 \<le> snd y" "stops api start (snd y)"
        "\<forall>j. p + 1 \<le> j \<and> j < snd y \<longrightarrow> \<not> stops api start j"
        "fst y = (acc @ page_items (api p)) @ gathered api start (p + 1) (snd y)" by auto
      have "\<forall>j. p \<le> j \<and> j < snd y \<longrightarrow> \<not> stops api start j"
      proof (intro allI impI)
        fix j assume "p \<le> j \<and> j < snd y"
        then show "\<not> stops api start j" using ih(3) False by (cases "j = p") auto
      qed
      moreover have "fst y = acc @ gathered api start p (snd y)"
        using ih(1,4) by (simp add: gathered_step)
      ultimately show ?thesis using ih(1,2) by simp
    qed
  qed
  then show ?thesis by simp
qed

lemma fetch_loop_never_stops:
  assumes "\<forall>j. p \<le> j \<longrightarrow> \<not> stops api start j"
  shows "fetch_loop api start p acc = None"
proof (cases "fetch_loop api start p acc")
  case None
  then show ?thesis .
next
  case (Some y)
  then have "fetch_loop api start p acc = Some (fst y, snd y)" by simp
  from fetch_loop_returns [OF this] assms show ?thesis by blast
qed

lemma ceil_div_le: "0 < n \<Longrightarrow> N \<le> q * n \<Longrightarrow> (N + n - 1) div n \<le> (q::nat)"
proof -
  assume n: "0 < n" and le: "N \<le> q * n"
  have "(N + n - 1) div n \<le> (q * n + (n - 1)) div n"
    using le n by (intro div_le_mono) simp
  also have "\<dots> = q + (n - 1) div n" using n by (intro div_mult_self3) simp
  also have "\<dots> = q" using n by simp
  finally show ?thesis .
qed

lemma ceil_div_gt: "0 < n \<Longrightarrow> q * n < N \<Longrightarrow> (q::nat) < (N + n - 1) div n"
proof -
  assume n: "0 < n" and lt: "q * n < N"
  have "(Suc q * n) div n \<le> (N + n - 1) div n"
    using lt n by (intro div_le_mono) simp
  then show ?thesis using n by simp
qed

lemma stops_paged_feed_None:
  "0 < n \<Longrightarrow> stops (paged_feed feed n) None p \<longleftrightarrow> length feed \<le> (p - 1) * n"
  by (auto simp: stops_def paged_feed_def)

lemma fetch_loop_paged_all:
  assumes "0 < n" "0 < p"
  shows "fetch_loop (paged_feed feed n) None p acc
           = Some (acc @ map Activity (drop ((p - 1) * n) feed),
                   max p ((length feed + n - 1) div n + 1))"
  using assms(2)
proof (induction "length feed - (p - 1) * n" arbitrary: p acc rule: less_induct)
  case less
  note assms = assms(1)
  show ?case
  proof (cases "length feed \<le> (p - 1) * n")
    case True
    then have "stops (paged_feed feed n) None p" using assms by (simp add: stops_paged_feed_None)
    moreover have "(length feed + n - 1) div n + 1 \<le> p"
      using ceil_div_le [OF assms True] True assms less.prems by (cases p) auto
    ultimately show ?thesis using True
      by (simp add: fetch_loop_stop paged_feed_def max_def last_items_def)
  next
    case False
    then have ns: "\<not> stops (paged_feed feed n) None p" using assms by (simp add: stops_paged_feed_None)
    have step: "(p + 1 - 1) * n = (p - 1) * n + n" using less.prems by (cases p) auto
    have "length feed - (p + 1 - 1) * n < length feed - (p - 1) * n"
      using False assms step by simp
    from less(1) [OF this]
    have "fetch_loop (paged_feed feed n) None (p + 1) (acc @ page_items (paged_feed feed n p))
            = Some ((acc @ page_items (paged_feed feed n p))
                      @ map Activity (drop ((p + 1 - 1) * n) feed),
                    max (p + 1) ((length feed + n - 1) div n + 1))" by simp
    moreover have "take n (drop ((p - 1) * n) feed) @ drop ((p + 1 - 1) * n) feed
                     = drop ((p - 1) * n) feed"
      unfolding step by (simp add: add.commute [of _ n] flip: drop_drop)
    then have "page_items (paged_feed feed n p) @ map Activity (drop ((p + 1 - 1) * n) feed)
                 = map Activity (drop ((p - 1) * n) feed)"
      unfolding paged_feed_def page_items.simps by (simp flip: map_append)
    moreover have "p < (length feed + n - 1) div n + 1"
      using ceil_div_gt [OF assms, of "p - 1" "length feed"] False less.prems by (cases p) auto
    ultimately show ?thesis using ns by (simp add: fetch_loop_continue max_def)
  qed
qed

lemma fetch_loop_paged_halts:
  assumes "0 < n" "0 < p"
  shows "\<exists>r k. fetch_loop (paged_feed feed n) start p acc = Some (r, k)
           \<and> k \<le> max p ((length feed + n - 1) div n + 1)"
  using assms(2)
proof (induction "length feed - (p - 1) * n" arbitrary: p acc rule: less_induct)
  case less
  note assms = assms(1)
  show ?case
  proof (cases "stops (paged_feed feed n) start p")
    case True
    then show ?thesis by (simp add: fetch_loop_stop)
  next
    case ns: False
    then have False: "\<not> length feed \<le> (p - 1) * n"
      by (auto simp: stops_def paged_feed_def)
    have step: "(p + 1 - 1) * n = (p - 1) * n + n" using less.prems by (cases p) auto
    have "length feed - (p + 1 - 1) * n < length feed - (p - 1) * n"
      using False assms step by simp
    from less(1) [OF this, of "acc @ page_items (paged_feed feed n p)"]
    obtain r k where
      "fetch_loop (paged_feed feed n) start (p + 1) (acc @ page_items (paged_feed feed n p))
         = Some (r, k)"
      "k \<le> max (p + 1) ((length feed + n - 1) div n + 1)" by auto
    moreover have "p < (length feed + n - 1) div n + 1"
      using ceil_div_gt [OF assms, of "p - 1" "length feed"] False less.prems by (cases p) auto
    ultimately show ?thesis using ns by (auto simp add: fetch_loop_continue max_def)
  qed
qed

text \<open>
  C3, as amended. The loop returns exactly when some page ends it, at the first such
  page: a request that raises, an empty array or object, an error payload when a start
  boundary is given, or an array whose last record has a start date before the start
  boundary. It then holds every earlier page whole, unfiltered, and of the page that
  ended it the records that are not before the boundary. Without a start boundary an
  error payload does not end the loop: its keys are appended and the next page is
  requested; and when no page ends the loop, it never returns. For a finite feed
  served in pages of 100 the loop always returns: without a start boundary it makes
  \<open>ceil (N / 100) + 1\<close> requests, the last one answered by the empty page, and holds the
  whole feed; with a start boundary it makes at most that many.
\<close>

theorem fetch_loop_halts_at_first_stop:
  "(fetch_loop api start 1 [] = Some (r, k) \<longleftrightarrow>
      1 \<le> k \<and> stops api start k \<and> (\<forall>j. 1 \<le> j \<and> j < k \<longrightarrow> \<not> stops api start j)
      \<and> r = gathered api start 1 k)
   \<and> ((\<forall>j. 1 \<le> j \<longrightarrow> \<not> stops api start j) \<longrightarrow> fetch_loop api start 1 [] = None)
   \<and> fetch_loop (paged_feed feed 100) None 1 []
         = Some (map Activity feed, (length feed + 99) div 100 + 1)
   \<and> (\<exists>r' k'. fetch_loop (paged_feed feed 100) start 1 [] = Some (r', k')
         \<and> k' \<le> (length feed + 99) div 100 + 1)"
proof (intro conjI)
  show "fetch_loop api start 1 [] = Some (r, k) \<longleftrightarrow>
      1 \<le> k \<and> stops api start k \<and> (\<forall>j. 1 \<le> j \<and> j < k \<longrightarrow> \<not> stops api start j)
      \<and> r = gathered api start 1 k"
  proof
    assume "fetch_loop api start 1 [] = Some (r, k)"
    from fetch_loop_returns [OF this]
    show "1 \<le> k \<and> stops api start k \<and> (\<forall>j. 1 \<le> j \<and> j < k \<longrightarrow> \<not> stops api start j)
        \<and> r = gathered api start 1 k" by simp
  next
    assume rhs: "1 \<le> k \<and> stops api start k
        \<and> (\<forall>j. 1 \<le> j \<and> j < k \<longrightarrow> \<not> stops api start j) \<and> r = gathered api start 1 k"
    then have "fetch_loop api start 1 [] = Some ([] @ gathered api start 1 k, k)"
      by (intro fetch_loop_first_stop) simp_all
    with rhs show "fetch_loop api start 1 [] = Some (r, k)" by simp
  qed
  show "(\<forall>j. 1 \<le> j \<longrightarrow> \<not> stops api start j) \<longrightarrow> fetch_loop api start 1 [] = None"
    using fetch_loop_never_stops [of 1 api start "[]"] by blast
  have m: "max 1 ((length feed + 100 - 1) div 100 + 1) = (length feed + 99) div 100 + 1"
    by simp
  show "fetch_loop (paged_feed feed 100) None 1 []
          = Some (map Activity feed, (length feed + 99) div 100 + 1)"
    using fetch_loop_paged_all [of 100 1 feed "[]"] unfolding m by simp
  show "\<exists>r' k'. fetch_loop (paged_feed feed 100) start 1 [] = Some (r', k')
         \<and> k' \<le> (length feed + 99) div 100 + 1"
    using fetch_loop_paged_halts [of 100 1 feed start "[]"] unfolding m by simp
qed

text \<open>
  Instances. With the season's start as boundary, the second of two pages ends with a
  run of 2023, so the loop stops there; the first page is kept whole (its run of May
  2025 too), and of the second page only the run of October 2024. A page whose last
  run starts at the very instant of the boundary does not end the loop. A provider
  that answers with an error payload ends the loop at the first request when a
  boundary is given, and keeps it running for ever when none is. An error payload
  between two pages, without a boundary, leaves its keys among the activities.
\<close>

theorem fetch_loop_halts_at_first_stop_witness:
  "fetch_loop two_pages (Some season_start) 1 [] =
       Some ([Activity (run 4 (mk_ts 2025 5 2 61200) 12000 4000),
              Activity (run 3 (mk_ts 2025 1 11 36000) 5000 1800),
              Activity (run 2 (mk_ts 2024 10 6 30600) 10000 3600)], 2)
   \<and> \<not> stops exact_pages (Some season_start) 1
   \<and> fetch_loop exact_pages (Some season_start) 1 [] =
       Some ([Activity (run 5 (mk_ts 2024 9 1 0) 3000 1200)], 2)
   \<and> fetch_loop rate_limited (Some season_start) 1 [] = Some ([], 1)
   \<and> fetch_loop rate_limited None 1 [] = None
   \<and> fetch_loop interrupted None 1 [] =
       Some ([Activity (run 3 (mk_ts 2025 1 11 36000) 5000 1800),
              Key ''message'', Key ''errors''], 3)"
proof -
  have first: "fetch_loop api st 1 [] = Some (gathered api st 1 k, k)"
    if "1 \<le> k" "stops api st k" "\<forall>j. 1 \<le> j \<and> j < k \<longrightarrow> \<not> stops api st j" for api st k
    using fetch_loop_halts_at_first_stop [of api st "gathered api st 1 k" k] that by blast
  have never: "fetch_loop api st 1 [] = None" if "\<forall>j. 1 \<le> j \<longrightarrow> \<not> stops api st j" for api st
    using fetch_loop_halts_at_first_stop [of api st] that by blast
  have below2: "j = 1" if "1 \<le> j \<and> j < 2" for j :: nat using that by simp
  have below3: "j = 1 \<or> j = 2" if "1 \<le> j \<and> j < 3" for j :: nat using that by auto
  have t2: "stops two_pages (Some season_start) 2" by code_simp
  have t1: "\<not> stops two_pages (Some season_start) 1" by code_simp
  have tg: "gathered two_pages (Some season_start) 1 2 =
       [Activity (run 4 (mk_ts 2025 5 2 61200) 12000 4000),
        Activity (run 3 (mk_ts 2025 1 11 36000) 5000 1800),
        Activity (run 2 (mk_ts 2024 10 6 30600) 10000 3600)]" by code_simp
  have a: "fetch_loop two_pages (Some season_start) 1 [] =
       Some ([Activity (run 4 (mk_ts 2025 5 2 61200) 12000 4000),
              Activity (run 3 (mk_ts 2025 1 11 36000) 5000 1800),
              Activity (run 2 (mk_ts 2024 10 6 30600) 10000 3600)], 2)"
  proof -
    have "\<forall>j. 1 \<le> j \<and> j < 2 \<longrightarrow> \<not> stops two_pages (Some season_start) j"
      using t1 below2 by blast
    from first [OF _ t2 this] show ?thesis unfolding tg by simp
  qed
  have e2: "stops exact_pages (Some season_start) 2" by code_simp
  have e1: "\<not> stops exact_pages (Some season_start) 1" by code_simp
  have eg: "gathered exact_pages (Some season_start) 1 2 =
       [Activity (run 5 (mk_ts 2024 9 1 0) 3000 1200)]" by code_simp
  have b: "fetch_loop exact_pages (Some season_start) 1 [] =
       Some ([Activity (run 5 (mk_ts 2024 9 1 0) 3000 1200)], 2)"
  proof -
    have "\<forall>j. 1 \<le> j \<and> j < 2 \<longrightarrow> \<not> stops exact_pages (Some season_start) j"
      using e1 below2 by blast
    from first [OF _ e2 this] show ?thesis unfolding eg by simp
  qed
  have r1: "stops rate_limited (Some season_start) 1" by code_simp
  have rg: "gathered rate_limited (Some season_start) 1 1 = []" by code_simp
  have c: "fetch_loop rate_limited (Some season_start) 1 [] = Some ([], 1)"
  proof -
    have "\<forall>j. 1 \<le> j \<and> j < 1 \<longrightarrow> \<not> stops rate_limited (Some season_start) j"
      by auto
    from first [OF _ r1 this] show ?thesis unfolding rg by simp
  qed
  have "\<forall>j. 1 \<le> j \<longrightarrow> \<not> stops rate_limited None j"
    by (simp add: stops_def rate_limited_def)
  then have d: "fetch_loop rate_limited None 1 [] = None" by (rule never)
  have i3: "stops interrupted None 3" by code_simp
  have i2: "\<not> stops interrupted None 2" by code_simp
  have i1: "\<not> stops interrupted None 1" by code_simp
  have ig: "gathered interrupted None 1 3 =
       [Activity (run 3 (mk_ts 2025 1 11 36000) 5000 1800), Key ''message'', Key ''errors'']"
    by code_simp
  have f: "fetch_loop interrupted None 1 [] =
       Some ([Activity (run 3 (mk_ts 2025 1 11 36000) 5000 1800),
              Key ''message'', Key ''errors''], 3)"
  proof -
    have "\<forall>j. 1 \<le> j \<and> j < 3 \<longrightarrow> \<not> stops interrupted None j"
      using i1 i2 below3 by blast
    from first [OF _ i3 this] show ?thesis unfolding ig by simp
  qed
  from a e1 b c d f show ?thesis by simp
qed

text \<open>
  C3 as stated fails on the page count and on the conditions. A feed of 101 old runs,
  fetched with a start boundary, is left after one request, while
  \<open>ceil (101 / 100) = 2\<close>. And a request that raises ends the loop without an empty
  page and without a boundary.
\<close>

theorem fetched_pages_counterexample:
  "fetch_loop (paged_feed (replicate 101 old_run) 100) (Some season_start) 1 [] = Some ([], 1)
   \<and> (1::nat) \<noteq> (length (replicate 101 old_run) + 99) div 100
   \<and> fetch_loop (\<lambda>page. Raises) None 1 [] = Some ([], 1)"
proof (intro conjI)
  have "stops (paged_feed (replicate 101 old_run) 100) (Some season_start) 1"
    by (simp add: stops_def paged_feed_def feed_defs calendar_defs)
  from fetch_loop_stop [OF this, of "[]"]
  show "fetch_loop (paged_feed (replicate 101 old_run) 100) (Some season_start) 1 [] = Some ([], 1)"
    by (simp add: paged_feed_def last_items_def feed_defs calendar_defs)
  show "(1::nat) \<noteq> (length (replicate 101 old_run) + 99) div 100" by simp
  have "stops (\<lambda>page. Raises) None 1" by (simp add: stops_def)
  from fetch_loop_stop [OF this, of "[]"]
  show "fetch_loop (\<lambda>page. Raises) None 1 [] = Some ([], 1)" by (simp add: last_items_def)
qed

section \<open>The weekly analysis\<close>

lemma fetch_loop_paged_100:
  "fetch_loop (paged_feed feed 100) None 1 []
     = Some (map Activity feed, (length feed + 99) div 100 + 1)"
proof -
  have m: "max 1 ((length feed + 100 - 1) div 100 + 1) = (length feed + 99) div 100 + 1"
    by simp
  show ?thesis using fetch_loop_paged_all [of 100 1 feed "[]"] unfolding m by simp
qed

lemma no_key_among_activities: "\<not> list_ex is_key (map Activity all)"
  by (induction all) simp_all

lemma activities_of_map: "activities_of (map Activity all) = all"
  by (induction all) simp_all

lemma items_without_key: "\<not> list_ex is_key its \<Longrightarrow> its = map Activity (activities_of its)"
  by (induction its rule: activities_of.induct) simp_all

lemma process_data_activities: "process_data (map Activity all) s e = process_frame all s e"
  by (cases all) (simp_all add: process_data_def no_key_among_activities activities_of_map)

lemma process_data_Inr:
  assumes "process_data its s e = Inr stats"
  shows "its = map Activity (activities_of its) \<and> process_frame (activities_of its) s e = Inr stats"
  using assms
  by (auto simp: process_data_def items_without_key split: list.splits item.splits if_splits)

lemma analyze_paged_feed:
  "analyze_training_data (paged_feed feed 100) None e
     = Some (if feed = [] then Inl NoActivities else process_frame feed None e)"
  using fetch_loop_paged_100 [of feed]
  by (simp add: analyze_training_data_def process_data_activities)

lemma analyze_Inr:
  assumes "analyze_training_data api s e = Some (Inr stats)"
  shows "\<exists>all k. fetch_loop api s 1 [] = Some (map Activity all, k) \<and> all \<noteq> []
           \<and> process_frame all s e = Inr stats"
proof -
  from assms obtain its k where f: "fetch_loop api s 1 [] = Some (its, k)"
    and ne: "its \<noteq> []" and p: "process_data its s e = Inr stats"
    by (auto simp: analyze_training_data_def split: option.splits if_splits)
  from process_data_Inr [OF p] have its: "its = map Activity (activities_of its)"
    and pf: "process_frame (activities_of its) s e = Inr stats" by simp_all
  from its ne have "activities_of its \<noteq> []" by auto
  with f its pf show ?thesis by metis
qed

lemma process_frame_Inr:
  "process_frame all s e = Inr stats \<longleftrightarrow>
     set required_columns \<subseteq> set (columns all) \<and> date_filter s e all \<noteq> []
     \<and> ''id'' \<in> set (columns all) \<and> column_dtype total_elevation_gain all = Float64
     \<and> stats = weekly_table (frame_dtypes all) (date_filter s e all)"
  by (auto simp: process_frame_def Let_def filter_empty_conv)
     (metis dtype.exhaust)+

lemma weekly_table_row:
  "row \<in> set (weekly_table dt df) \<Longrightarrow>
     (year row, week row) \<in> set (group_keys df) \<and> row = weekly_row dt df (year row, week row)"
  by (auto simp: weekly_table_def weekly_row_def Let_def)

lemma weekly_row_fields:
  "year (weekly_row dt df k) = fst k" "week (weekly_row dt df k) = snd k"
  "total_distance_km (weekly_row dt df k)
     = column_sum (distance_dtype dt) (map distance (group_rows df k)) / 1000"
  "total_time_hours (weekly_row dt df k)
     = column_sum (moving_time_dtype dt) (map moving_time (group_rows df k)) / 60"
  "number_of_activities (weekly_row dt df k) = length (dropna (map id_field (group_rows df k)))"
  "average_speed_kmh (weekly_row dt df k)
     = fdiv (total_distance_km (weekly_row dt df k)) (total_time_hours (weekly_row dt df k))"
  by (simp_all add: weekly_row_def Let_def)

lemma analyze_rows:
  assumes "analyze_training_data api s e = Some (Inr stats)"
  shows "\<exists>all k. fetch_loop api s 1 [] = Some (map Activity all, k)
           \<and> stats = weekly_table (frame_dtypes all) (date_filter s e all)"
proof -
  from analyze_Inr [OF assms] obtain all k where
    "fetch_loop api s 1 [] = Some (map Activity all, k)" "process_frame all s e = Inr stats"
    by blast
  then show ?thesis by (auto simp: process_frame_Inr)
qed

lemma set_dropna: "set (dropna xs) = {x. Some x \<in> set xs}"
  by (induction xs rule: dropna.induct) auto

lemma length_dropna: "length (dropna xs) = length [x \<leftarrow> xs. x \<noteq> None]"
  by (induction xs rule: dropna.induct) simp_all

text \<open>
  What the grouping does with a row that has a start date: the table has exactly one
  row for its key, the calendar year and the ISO week number of the date, and the row's
  group holds it. The group of a key, spelled out: the rows whose start date has that
  calendar year and that ISO week number.
\<close>

lemma weekly_table_keys_distinct:
  "distinct (map (\<lambda>row. (year row, week row)) (weekly_table dt df))"
proof -
  have "map (\<lambda>row. (year row, week row)) (weekly_table dt df) = group_keys df"
    by (simp add: weekly_table_def comp_def weekly_row_fields(1,2) map_idI)
  then show ?thesis by (simp add: group_keys_def)
qed

lemma dated_row_grouped:
  assumes "a \<in> set df" and "start_date a = Some t"
  shows "weekly_row dt df (ts_year t, iso_week t) \<in> set (weekly_table dt df)
         \<and> a \<in> set (group_rows df (ts_year t, iso_week t))"
proof -
  have "bucket a = Some (ts_year t, iso_week t)" using assms(2) by (simp add: bucket_def)
  with assms(1) have "(ts_year t, iso_week t) \<in> set (group_keys df)"
    and "a \<in> set (group_rows df (ts_year t, iso_week t))"
    by (force simp: group_keys_def set_dropna group_rows_def)+
  then show ?thesis by (simp add: weekly_table_def)
qed

lemma group_rows_spelled_out:
  "group_rows df (y, w) =
     [a \<leftarrow> df.
        case start_date a of
          None \<Rightarrow> False
        | Some t \<Rightarrow> ts_year t = y \<and> snd (isocalendar (ts_year t) (ts_month t) (ts_day t)) = w]"
  unfolding group_rows_def
  by (rule filter_cong)
     (auto simp: bucket_def iso_week_def iso_year_week_def split: option.splits)

text \<open>
  Every row of a table that the analysis returns counts the ids, and adds the moving
  times, of the fetched activities left by the date filter whose start date has the
  row's calendar year and ISO week number; the sum wraps around in 64 bits when every
  fetched activity has an integer moving time.
\<close>

lemma table_row_spelled_out:
  assumes "analyze_training_data api s e = Some (Inr stats)" and "row \<in> set stats"
  shows "\<exists>all k g. fetch_loop api s 1 [] = Some (map Activity all, k)
           \<and> g = [a \<leftarrow> date_filter s e all.
                    case start_date a of
                      None \<Rightarrow> False
                    | Some t \<Rightarrow> ts_year t = year row
                        \<and> snd (isocalendar (ts_year t) (ts_month t) (ts_day t)) = week row]
           \<and> number_of_activities row = length [a \<leftarrow> g. id_field a \<noteq> None]
           \<and> total_time_hours row
                = column_sum (column_dtype moving_time all) (map moving_time g) / 60
           \<and> total_distance_km row
                = column_sum (column_dtype distance all) (map distance g) / 1000"
proof -
  from analyze_rows [OF assms(1)] obtain all k where
    f: "fetch_loop api s 1 [] = Some (map Activity all, k)" and
    st: "stats = weekly_table (frame_dtypes all) (date_filter s e all)" by blast
  let ?df = "date_filter s e all"
  from st assms(2) have r: "row = weekly_row (frame_dtypes all) ?df (year row, week row)"
    by (simp add: weekly_table_row)
  have n: "number_of_activities row
             = length [a \<leftarrow> group_rows ?df (year row, week row). id_field a \<noteq> None]"
    using weekly_row_fields(5) [of "frame_dtypes all" ?df "(year row, week row)"] r
    by (simp add: length_dropna filter_map comp_def)
  have h: "total_time_hours row
             = column_sum (column_dtype moving_time all)
                 (map moving_time (group_rows ?df (year row, week row))) / 60"
    using weekly_row_fields(4) [of "frame_dtypes all" ?df "(year row, week row)"] r
    by (simp add: frame_dtypes_def)
  have d: "total_distance_km row
             = column_sum (column_dtype distance all)
                 (map distance (group_rows ?df (year row, week row))) / 1000"
    using weekly_row_fields(3) [of "frame_dtypes all" ?df "(year row, week row)"] r
    by (simp add: frame_dtypes_def)
  from f n h d show ?thesis unfolding group_rows_spelled_out by blast
qed

lemma column_sum_in_range:
  assumes "- (2 ^ 63) \<le> sum_list (integers (dropna values))"
    and "sum_list (integers (dropna values)) < 2 ^ 63"
  shows "column_sum Int64 values = real_of_int (sum_list (integers (dropna values)))"
proof -
  let ?n = "sum_list (integers (dropna values))"
  have "(?n + 2 ^ 63) mod 2 ^ 64 = ?n + 2 ^ 63"
    using assms by (intro mod_pos_pos_trivial) simp_all
  then show ?thesis by (simp add: column_sum_def int64_def)
qed

text \<open>
  C1. The grouping key pairs the ISO week number with the calendar year. The runs of
  1 January 2024 and 31 December 2023 get the rows (2024, 1) and (2023, 52). But
  30 December 2024, a Monday, opens ISO week 1 of 2025: it is keyed (2024, 1) as well,
  and the table merges that run with the run of 1 January 2024, 52 weeks earlier.
\<close>

theorem year_boundary_weeks_merged:
  "iso_year_week (mk_ts 2024 12 30 27000) = (2025, 1)
   \<and> iso_year_week (mk_ts 2024 1 1 27000) = (2024, 1)
   \<and> analyze_training_data (paged_feed boundary_feed 100) None None =
       Some (Inr [\<lparr>year = 2024, week = 1, total_distance_km = 15, total_time_minutes = 5400,
                   total_elevation_meters = 0, number_of_activities = 2, total_time_hours = 90,
                   average_speed_kmh = Finite (1 / 6)\<rparr>])
   \<and> analyze_training_data (paged_feed new_year_feed 100) None None =
       Some (Inr [\<lparr>year = 2023, week = 52, total_distance_km = 10, total_time_minutes = 3600,
                   total_elevation_meters = 0, number_of_activities = 1, total_time_hours = 60,
                   average_speed_kmh = Finite (1 / 6)\<rparr>,
                  \<lparr>year = 2024, week = 1, total_distance_km = 5, total_time_minutes = 1800,
                   total_elevation_meters = 0, number_of_activities = 1, total_time_hours = 30,
                   average_speed_kmh = Finite (1 / 6)\<rparr>])"
  by code_simp

text \<open>
  C2. Three runs of one ISO week with the distances 5000, 10000 and 0 and the moving
  times 1800, 3600 and 600. In ISO week 10 of 2024 the table has one bucket, which
  reports 15 km, 3 activities and \<open>(1800 + 3600 + 600) / 60\<close> hours. In ISO week 1 of
  2025, which begins on 30 December 2024, the same three runs are split by the calendar
  year: no bucket reports them together, the table has a bucket (2024, 1) with one run
  and a bucket (2025, 1) with two.
\<close>

theorem three_runs_of_one_iso_week:
  "list_all (\<lambda>a. map_option iso_year_week (start_date a) = Some (2024, 10)) synthetic_feed
   \<and> map_option (map_sum id (map reports))
        (analyze_training_data (paged_feed synthetic_feed 100) None None)
       = Some (Inr [((2024, 10), 15, 3, (1800 + 3600 + 600) / 60)])
   \<and> list_all (\<lambda>a. map_option iso_year_week (start_date a) = Some (2025, 1)) new_year_week_feed
   \<and> map_option (map_sum id (map reports))
        (analyze_training_data (paged_feed new_year_week_feed 100) None None)
       = Some (Inr [((2024, 1), 5, 1, 1800 / 60), ((2025, 1), 10, 2, (3600 + 600) / 60)])"
  by code_simp

text \<open>
  C5. Three fetched activities of the calendar year 2024, each with an id, no date
  range. The ISO weeks 1 of 2024, 10 of 2024 and 1 of 2025 hold one of them each, yet
  the table has no bucket for the last: the bucket (2024, 1) has a
  \<^verbatim>\<open>number_of_activities\<close> of 2, the run of 30 December 2024 being counted with the run
  of 1 January 2024.
\<close>

theorem activity_count_across_year_boundary:
  "list_all (\<lambda>a. id_field a \<noteq> None) calendar_year_feed
   \<and> map_option (map_sum id (map (\<lambda>row. ((year row, week row), number_of_activities row))))
        (analyze_training_data (paged_feed calendar_year_feed 100) None None)
       = Some (Inr [((2024, 1), 2), ((2024, 10), 1)])
   \<and> length (in_iso_week (2024, 1) calendar_year_feed) = 1
   \<and> length (in_iso_week (2024, 10) calendar_year_feed) = 1
   \<and> length (in_iso_week (2025, 1) calendar_year_feed) = 1"
  by code_simp

lemma map_Activity_eq: "map Activity xs = map Activity ys \<longleftrightarrow> xs = ys"
  by (simp add: inj_map_eq_map inj_def)

lemma date_filter_interval:
  assumes "a \<in> set (date_filter (Some s) (Some e) all)"
  shows "a \<in> set all \<and> (\<exists>t. start_date a = Some t \<and> instant s \<le> instant t \<and> instant t \<le> instant e)"
  using assms by (auto simp: date_filter_def split: option.splits)

lemma group_rows_subset: "a \<in> set (group_rows df k) \<Longrightarrow> a \<in> set df"
  by (simp add: group_rows_def)

text \<open>
  C4. With both boundaries given, every row of the table aggregates a group of fetched
  activities whose start timestamps all lie in the closed interval between them,
  whichever page they came on.
\<close>

theorem date_range_closed_interval:
  assumes "analyze_training_data api (Some s) (Some e) = Some (Inr stats)"
  shows "\<exists>all k. fetch_loop api (Some s) 1 [] = Some (map Activity all, k) \<and>
           (\<forall>row \<in> set stats.
              row = weekly_row (frame_dtypes all) (date_filter (Some s) (Some e) all)
                      (year row, week row)
              \<and> (\<forall>a \<in> set (group_rows (date_filter (Some s) (Some e) all) (year row, week row)).
                    a \<in> set all \<and>
                    (\<exists>t. start_date a = Some t \<and> instant s \<le> instant t \<and> instant t \<le> instant e)))"
proof -
  from analyze_rows [OF assms] obtain all k where
    f: "fetch_loop api (Some s) 1 [] = Some (map Activity all, k)" and
    st: "stats = weekly_table (frame_dtypes all) (date_filter (Some s) (Some e) all)" by blast
  have "\<forall>row \<in> set stats.
              row = weekly_row (frame_dtypes all) (date_filter (Some s) (Some e) all)
                      (year row, week row)
              \<and> (\<forall>a \<in> set (group_rows (date_filter (Some s) (Some e) all) (year row, week row)).
                    a \<in> set all \<and>
                    (\<exists>t. start_date a = Some t \<and> instant s \<le> instant t \<and> instant t \<le> instant e))"
    using st weekly_table_row date_filter_interval group_rows_subset by blast
  with f show ?thesis by blast
qed

text \<open>
  An instance: the season from 1 September 2024 to 21 April 2025 over two pages. The
  first page brings a run of May 2025, after the end; it is fetched and then filtered
  out, and the table has the two rows of the runs inside the season.
\<close>

theorem date_range_closed_interval_witness:
  "analyze_training_data two_pages (Some season_start) (Some season_end) = Some (Inr season_rows)
   \<and> group_rows (date_filter (Some season_start) (Some season_end)
                   [run 4 (mk_ts 2025 5 2 61200) 12000 4000, run 3 (mk_ts 2025 1 11 36000) 5000 1800,
                    run 2 (mk_ts 2024 10 6 30600) 10000 3600]) (2025, 2)
       = [run 3 (mk_ts 2025 1 11 36000) 5000 1800]
   \<and> instant season_start \<le> instant (mk_ts 2025 1 11 36000)
   \<and> instant (mk_ts 2025 1 11 36000) \<le> instant season_end"
proof -
  let ?r = "run 3 (mk_ts 2025 1 11 36000) 5000 1800"
  let ?all = "[run 4 (mk_ts 2025 5 2 61200) 12000 4000, ?r, run 2 (mk_ts 2024 10 6 30600) 10000 3600]"
  have h: "analyze_training_data two_pages (Some season_start) (Some season_end)
             = Some (Inr season_rows)"
    by code_simp
  have fl: "fetch_loop two_pages (Some season_start) 1 [] = Some (map Activity ?all, 2)"
    by code_simp
  have g: "group_rows (date_filter (Some season_start) (Some season_end) ?all) (2025, 2) = [?r]"
    by code_simp
  have row: "season_rows ! 1 \<in> set season_rows" "year (season_rows ! 1) = 2025"
    "week (season_rows ! 1) = 2" "start_date ?r = Some (mk_ts 2025 1 11 36000)"
    by (simp_all add: season_rows_def run_def)
  from date_range_closed_interval [OF h] fl map_Activity_eq obtain
    "\<forall>row \<in> set season_rows.
       \<forall>a \<in> set (group_rows (date_filter (Some season_start) (Some season_end) ?all)
                     (year row, week row)).
         \<exists>t. start_date a = Some t \<and> instant season_start \<le> instant t
              \<and> instant t \<le> instant season_end"
    by auto
  with row g have "instant season_start \<le> instant (mk_ts 2025 1 11 36000)
      \<and> instant (mk_ts 2025 1 11 36000) \<le> instant season_end"
    by (metis list.set_intros(1) option.inject)
  with h g show ?thesis by simp
qed

text \<open>
  C6, as amended. In every row \<^verbatim>\<open>average_speed_kmh\<close> is the float quotient of
  \<^verbatim>\<open>total_distance_km\<close> by \<^verbatim>\<open>total_time_hours\<close>, and nothing guards the division: for
  a total time of zero it is an infinity when the distance is not zero, and NaN when
  the distance is zero too.
\<close>

theorem average_speed_unguarded:
  assumes "analyze_training_data api s e = Some (Inr stats)" and "row \<in> set stats"
  shows "(total_time_hours row \<noteq> 0 \<longrightarrow>
            average_speed_kmh row = Finite (total_distance_km row / total_time_hours row))
         \<and> (total_time_hours row = 0 \<longrightarrow>
              average_speed_kmh row =
                (if total_distance_km row > 0 then PosInf
                 else if total_distance_km row < 0 then NegInf
                 else NaN))"
proof -
  from analyze_rows [OF assms(1)] obtain all k where
    st: "stats = weekly_table (frame_dtypes all) (date_filter s e all)" by blast
  with assms(2) have
    "row = weekly_row (frame_dtypes all) (date_filter s e all) (year row, week row)"
    by (simp add: weekly_table_row)
  then have "average_speed_kmh row = fdiv (total_distance_km row) (total_time_hours row)"
    using weekly_row_fields(6) [of "frame_dtypes all" "date_filter s e all" "(year row, week row)"]
    by simp
  then show ?thesis by (simp add: fdiv_def)
qed

text \<open>
  An instance: a week of 5 km in no time has the speed \<open>PosInf\<close>.
\<close>

theorem average_speed_unguarded_witness:
  "analyze_training_data (paged_feed zero_time_feed 100) None None = Some (Inr zero_time_rows)
   \<and> total_time_hours (zero_time_rows ! 0) = 0
   \<and> total_distance_km (zero_time_rows ! 0) = 5
   \<and> average_speed_kmh (zero_time_rows ! 0) = PosInf"
proof -
  have h: "analyze_training_data (paged_feed zero_time_feed 100) None None
             = Some (Inr zero_time_rows)"
    by code_simp
  have m: "zero_time_rows ! 0 \<in> set zero_time_rows"
    and t: "total_time_hours (zero_time_rows ! 0) = 0"
    and d: "total_distance_km (zero_time_rows ! 0) = 5"
    by (simp_all add: zero_time_rows_def)
  from average_speed_unguarded [OF h m] t d
  have "average_speed_kmh (zero_time_rows ! 0) = PosInf" by simp
  with h t d show ?thesis by simp
qed

text \<open>
  C6 as stated fails on the guard. The table of two weeks without moving time holds
  whatever the division gave: \<open>PosInf\<close> for the week with a distance, \<open>NaN\<close> for the week
  without; neither zero nor one marker for both.
\<close>

theorem zero_time_counterexample:
  "analyze_training_data (paged_feed zero_time_feed 100) None None = Some (Inr zero_time_rows)
   \<and> map total_time_hours zero_time_rows = [0, 0]
   \<and> map average_speed_kmh zero_time_rows = [PosInf, NaN]"
  by code_simp

lemma no_id_column:
  "(\<forall>a \<in> set all. id_field a = None) \<Longrightarrow> ''id'' \<notin> set (columns all)"
  by (auto simp: columns_def has_key_def list_ex_iff)

lemma process_frame_missing_columns:
  "process_frame all s e = Inl (MissingColumns cols) \<Longrightarrow>
     cols = [col \<leftarrow> required_columns. col \<notin> set (columns all)]"
  by (auto simp: process_frame_def Let_def split: if_splits)

text \<open>
  C10, as amended. The explicit check covers \<^verbatim>\<open>start_date\<close>, \<^verbatim>\<open>distance\<close>,
  \<^verbatim>\<open>moving_time\<close> and \<^verbatim>\<open>total_elevation_gain\<close>, never \<^verbatim>\<open>id\<close>. When no fetched activity
  has an id, the analysis always fails; and when the feed has the four checked columns
  and the date filter leaves a row, it fails in the aggregation, through the handler of
  line 162, not at the check.
\<close>

theorem missing_id_fails_in_aggregation:
  assumes "fetch_loop api s 1 [] = Some (map Activity all, k)" and "all \<noteq> []"
    and "\<forall>a \<in> set all. id_field a = None"
  shows "(\<exists>f. analyze_training_data api s e = Some (Inl f))
         \<and> (set required_columns \<subseteq> set (columns all) \<and> date_filter s e all \<noteq> [] \<longrightarrow>
              analyze_training_data api s e = Some (Inl ProcessingError))
         \<and> (\<forall>cols. analyze_training_data api s e = Some (Inl (MissingColumns cols)) \<longrightarrow>
              ''id'' \<notin> set cols \<and> set cols \<subseteq> set required_columns)"
proof (intro conjI allI impI)
  have a: "analyze_training_data api s e = Some (process_frame all s e)"
    using assms(1,2) by (simp add: analyze_training_data_def process_data_activities)
  have noid: "''id'' \<notin> set (columns all)" using assms(3) by (rule no_id_column)
  show "\<exists>f. analyze_training_data api s e = Some (Inl f)"
    using a noid by (auto simp: process_frame_def Let_def)
  show "analyze_training_data api s e = Some (Inl ProcessingError)"
    if "set required_columns \<subseteq> set (columns all) \<and> date_filter s e all \<noteq> []"
  proof -
    from that have "[col \<leftarrow> required_columns. col \<notin> set (columns all)] = []"
      by (auto simp: filter_empty_conv)
    with that noid a show ?thesis by (simp add: process_frame_def)
  qed
  fix cols assume "analyze_training_data api s e = Some (Inl (MissingColumns cols))"
  with a have "process_frame all s e = Inl (MissingColumns cols)" by simp
  from process_frame_missing_columns [OF this]
  have c: "cols = [col \<leftarrow> required_columns. col \<notin> set (columns all)]" .
  show "''id'' \<notin> set cols" unfolding c by (simp add: required_columns_def)
  show "set cols \<subseteq> set required_columns" unfolding c by auto
qed

text \<open>
  An instance: two runs of March 2024 without ids pass the check and fail in the
  aggregation.
\<close>

theorem missing_id_fails_in_aggregation_witness:
  "fetch_loop (paged_feed no_id_feed 100) None 1 [] = Some (map Activity no_id_feed, 2)
   \<and> no_id_feed \<noteq> []
   \<and> list_all (\<lambda>a. id_field a = None) no_id_feed
   \<and> list_all (\<lambda>col. col \<in> set (columns no_id_feed)) required_columns
   \<and> date_filter None None no_id_feed \<noteq> []
   \<and> analyze_training_data (paged_feed no_id_feed 100) None None = Some (Inl ProcessingError)"
proof -
  have f: "fetch_loop (paged_feed no_id_feed 100) None 1 [] = Some (map Activity no_id_feed, 2)"
    by code_simp
  have ne: "no_id_feed \<noteq> []" by code_simp
  have ids: "list_all (\<lambda>a. id_field a = None) no_id_feed" by code_simp
  have cols: "list_all (\<lambda>col. col \<in> set (columns no_id_feed)) required_columns" by code_simp
  have df: "date_filter None None no_id_feed \<noteq> []" by code_simp
  from ids have ids': "\<forall>a \<in> set no_id_feed. id_field a = None" by (simp add: list_all_iff)
  from cols have cols': "set required_columns \<subseteq> set (columns no_id_feed)"
    by (auto simp: list_all_iff)
  from missing_id_fails_in_aggregation [OF f ne ids', of None] cols' df
  have "analyze_training_data (paged_feed no_id_feed 100) None None = Some (Inl ProcessingError)"
    by blast
  with f ne ids cols df show ?thesis by simp
qed

text \<open>
  C10 as stated fails for feeds without ids that lack more than the id. A feed of one
  record with none of the keys is stopped by the explicit check; and the two runs of
  March 2024, analysed up to 1 January 2024, are all removed by the date filter. Neither
  reaches the aggregation.
\<close>

theorem missing_id_counterexample:
  "list_all (\<lambda>a. id_field a = None) [bare]
   \<and> analyze_training_data (paged_feed [bare] 100) None None =
       Some (Inl (MissingColumns
                    [''start_date'', ''distance'', ''moving_time'', ''total_elevation_gain'']))
   \<and> list_all (\<lambda>a. id_field a = None) no_id_feed
   \<and> analyze_training_data (paged_feed no_id_feed 100) None (Some (mk_ts 2024 1 1 0)) =
       Some (Inl NoActivitiesAfterFilter)"
  by code_simp

section \<open>The edges of the frame\<close>

text \<open>
  When every fetched activity has an integer elevation gain, the table is computed
  but the summary cannot be written, and the function returns \<^verbatim>\<open>(None, None)\<close>. A sum
  of integer moving times wraps around in 64 bits. Keys of an error payload among the
  fetched items make the function return \<^verbatim>\<open>(None, None)\<close> as well: at the check of the
  columns when the payload came first, in the handler when an activity came first.
  With a start boundary the payload ends the loop and nothing is fetched.
\<close>

lemma integer_elevation_not_returned:
  "analyze_training_data (paged_feed treadmill_feed 100) None None = Some (Inl ProcessingError)"
  by code_simp

lemma moving_time_sum_wraps:
  "map_option (map_sum id (map total_time_minutes))
     (analyze_training_data (paged_feed endless_feed 100) None None)
   = Some (Inr [- (2 ^ 63)])"
  by code_simp

lemma error_payload_rows:
  "analyze_training_data refused_once None None = Some (Inl (MissingColumns required_columns))"
  "analyze_training_data interrupted None None = Some (Inl ProcessingError)"
  "analyze_training_data rate_limited (Some season_start) (Some season_end)
     = Some (Inl NoActivities)"
  by code_simp+

section \<open>Reading the credentials\<close>

lemma not_isspace_eq: "\<not> isspace CHR ''=''"
  by (simp add: isspace_def)

lemma length_str_split: "length (str_split c s) = Suc (count_list s c)"
  by (induction s) (auto split: list.splits)

lemma str_split_no_sep: "c \<notin> set s \<Longrightarrow> str_split c s = [s]"
  by (induction s) auto

lemma str_split_one_sep:
  "c \<notin> set k \<Longrightarrow> c \<notin> set v \<Longrightarrow> str_split c (k @ c # v) = [k, v]"
  by (induction k) (auto simp: str_split_no_sep)

lemma count_list_dropWhile:
  "\<not> P c \<Longrightarrow> count_list (dropWhile P s) c = count_list s c"
  by (induction s) auto

lemma count_list_strip: "count_list (strip s) CHR ''='' = count_list s CHR ''=''"
  by (simp add: strip_def lstrip_def rstrip_def count_list_dropWhile not_isspace_eq)

lemma lstrip_append: "\<not> isspace c \<Longrightarrow> lstrip (k @ c # v) = lstrip k @ c # v"
  by (auto simp: lstrip_def dropWhile_append)

lemma rstrip_append: "\<not> isspace c \<Longrightarrow> rstrip (k @ c # v) = k @ c # rstrip v"
  by (auto simp: rstrip_def dropWhile_append)

lemma rstrip_Cons:
  "rstrip (x # xs) = (if rstrip xs = [] \<and> isspace x then [] else x # rstrip xs)"
  by (auto simp: rstrip_def dropWhile_append)

lemma rstrip_Nil: "rstrip [] = []"
  by (simp add: rstrip_def)

lemma lstrip_rstrip: "lstrip (rstrip s) = rstrip (lstrip s)"
proof (induction s)
  case Nil
  show ?case by (simp add: lstrip_def rstrip_def)
next
  case (Cons x xs)
  show ?case
  proof (cases "isspace x")
    case True
    have "rstrip xs = [] \<Longrightarrow> rstrip (lstrip xs) = []"
      using Cons by (simp add: lstrip_def)
    with True Cons show ?thesis by (auto simp: rstrip_Cons lstrip_def)
  next
    case False
    then show ?thesis by (simp add: rstrip_Cons lstrip_def)
  qed
qed

lemma rstrip_idem: "rstrip (rstrip s) = rstrip s"
  by (simp add: rstrip_def)

lemma lstrip_idem: "lstrip (lstrip s) = lstrip s"
  by (simp add: lstrip_def)

lemma strip_lstrip: "strip (lstrip s) = strip s"
  by (simp add: strip_def lstrip_idem)

lemma strip_rstrip: "strip (rstrip s) = strip s"
  by (simp add: strip_def lstrip_rstrip rstrip_idem)

lemma strip_key_value:
  "strip (k @ CHR ''='' # v) = lstrip k @ CHR ''='' # rstrip v"
  by (simp add: strip_def lstrip_append rstrip_append not_isspace_eq)

lemma set_lstrip: "set (lstrip s) \<subseteq> set s"
  by (auto simp: lstrip_def dest: set_dropWhileD)

lemma set_rstrip: "set (rstrip s) \<subseteq> set s"
  by (auto simp: rstrip_def dest: set_dropWhileD)

lemma read_lines_key_value:
  assumes "CHR ''='' \<notin> set k" "CHR ''='' \<notin> set v"
  shows "read_lines ((k @ CHR ''='' # v) # lines) credentials
           = read_lines lines (credentials(strip k \<mapsto> strip v))"
proof -
  have "str_split CHR ''='' (strip (k @ CHR ''='' # v)) = [lstrip k, rstrip v]"
    unfolding strip_key_value using assms set_lstrip [of k] set_rstrip [of v]
    by (intro str_split_one_sep) auto
  then show ?thesis by (simp add: strip_lstrip strip_rstrip)
qed

lemma read_lines_skip:
  "read_lines lines credentials = read_lines [l \<leftarrow> lines. CHR ''='' \<in> set l] credentials"
  by (induction lines arbitrary: credentials) (auto split: list.splits)

lemma read_lines_two_parts:
  "read_lines lines credentials = Inr m \<Longrightarrow> l \<in> set lines \<Longrightarrow> CHR ''='' \<in> set l \<Longrightarrow>
     length (str_split CHR ''='' (strip l)) = 2"
  by (induction lines arbitrary: credentials) (auto split: list.splits if_splits)

lemma get_credentials_cases:
  "get_credentials file = Exit 1 \<or> (\<exists>r. get_credentials file = Return r)"
  by (auto simp: get_credentials_def split: sum.splits exn.splits)

lemma get_credentials_Return:
  "get_credentials file = Return r \<longleftrightarrow>
     (\<exists>lines m. file = Inr lines \<and> read_lines lines Map.empty = Inr m
        \<and> m ''client_id'' = Some (fst r) \<and> m ''client_secret'' = Some (snd r))"
  by (cases r)
     (auto simp: get_credentials_def try_get_credentials_def
           split: sum.splits exn.splits option.splits)
text \<open>
  C7. A missing file ends the process with exit code 1. A line \<open>key = value\<close> with a
  single \<open>=\<close> stores the stripped value under the stripped key. Once the lines are
  read, the function returns the values stored under \<^verbatim>\<open>client_id\<close> and
  \<^verbatim>\<open>client_secret\<close>, and exits with code 1 when either key is absent.
\<close>

theorem get_credentials_reads_or_exits:
  "get_credentials (Inl FileNotFoundError) = Exit 1
   \<and> (CHR ''='' \<notin> set k \<and> CHR ''='' \<notin> set v \<longrightarrow>
        read_lines ((k @ CHR ''='' # v) # lines) credentials
          = read_lines lines (credentials(strip k \<mapsto> strip v)))
   \<and> (read_lines lines Map.empty = Inr m \<and> (m ''client_id'' = None \<or> m ''client_secret'' = None)
        \<longrightarrow> get_credentials (Inr lines) = Exit 1)
   \<and> (read_lines lines Map.empty = Inr m \<and> m ''client_id'' = Some client_id
        \<and> m ''client_secret'' = Some client_secret
        \<longrightarrow> get_credentials (Inr lines) = Return (client_id, client_secret))"
proof (intro conjI impI)
  show "get_credentials (Inl FileNotFoundError) = Exit 1"
    by (simp add: get_credentials_def try_get_credentials_def)
  show "read_lines ((k @ CHR ''='' # v) # lines) credentials
          = read_lines lines (credentials(strip k \<mapsto> strip v))"
    if "CHR ''='' \<notin> set k \<and> CHR ''='' \<notin> set v"
    using that read_lines_key_value by blast
  show "get_credentials (Inr lines) = Exit 1"
    if "read_lines lines Map.empty = Inr m \<and> (m ''client_id'' = None \<or> m ''client_secret'' = None)"
    using that
    by (auto simp: get_credentials_def try_get_credentials_def split: option.splits)
  show "get_credentials (Inr lines) = Return (client_id, client_secret)"
    if "read_lines lines Map.empty = Inr m \<and> m ''client_id'' = Some client_id
        \<and> m ''client_secret'' = Some client_secret"
    using that by (simp add: get_credentials_Return)
qed

text \<open>
  An instance: a file with the two lines yields the pair; with the first line alone
  the secret is absent and the process exits.
\<close>

theorem get_credentials_reads_or_exits_witness:
  "read_lines credentials_file Map.empty
     = Inr [''client_id'' \<mapsto> ''153827'', ''client_secret'' \<mapsto> ''s3cr3t'']
   \<and> get_credentials (Inr credentials_file) = Return (''153827'', ''s3cr3t'')
   \<and> read_lines [hd credentials_file] Map.empty = Inr [''client_id'' \<mapsto> ''153827'']
   \<and> get_credentials (Inr [hd credentials_file]) = Exit 1"
proof -
  let ?nl = "[CHR 0x0A]"
  let ?l1 = "''client_id '' @ CHR ''='' # '' 153827'' @ ?nl"
  let ?l2 = "''client_secret '' @ CHR ''='' # '' s3cr3t'' @ ?nl"
  have s: "strip ''client_id '' = ''client_id''" "strip ('' 153827'' @ ?nl) = ''153827''"
    "strip ''client_secret '' = ''client_secret''" "strip ('' s3cr3t'' @ ?nl) = ''s3cr3t''"
    by code_simp+
  have l1: "read_lines (?l1 # lines) credentials
      = read_lines lines (credentials(''client_id'' \<mapsto> ''153827''))" for lines credentials
  proof -
    have "CHR ''='' \<notin> set ''client_id '' \<and> CHR ''='' \<notin> set ('' 153827'' @ ?nl)" by simp
    with get_credentials_reads_or_exits [of "''client_id ''" "'' 153827'' @ ?nl" lines credentials]
    have "read_lines (?l1 # lines) credentials
      = read_lines lines (credentials(strip ''client_id '' \<mapsto> strip ('' 153827'' @ ?nl)))"
      by blast
    then show ?thesis unfolding s .
  qed
  have l2: "read_lines (?l2 # lines) credentials
      = read_lines lines (credentials(''client_secret'' \<mapsto> ''s3cr3t''))" for lines credentials
  proof -
    have "CHR ''='' \<notin> set ''client_secret '' \<and> CHR ''='' \<notin> set ('' s3cr3t'' @ ?nl)" by simp
    with get_credentials_reads_or_exits [of "''client_secret ''" "'' s3cr3t'' @ ?nl" lines credentials]
    have "read_lines (?l2 # lines) credentials
      = read_lines lines (credentials(strip ''client_secret '' \<mapsto> strip ('' s3cr3t'' @ ?nl)))"
      by blast
    then show ?thesis unfolding s .
  qed
  have cf: "credentials_file = [?l1, ?l2]" by (simp add: credentials_file_def)
  have r2: "read_lines credentials_file Map.empty
     = Inr [''client_id'' \<mapsto> ''153827'', ''client_secret'' \<mapsto> ''s3cr3t'']"
    unfolding cf l1 l2 by (simp only: read_lines.simps(1))
  have r1: "read_lines [hd credentials_file] Map.empty = Inr [''client_id'' \<mapsto> ''153827'']"
    unfolding cf list.sel l1 by (simp only: read_lines.simps(1))
  have g2: "get_credentials (Inr credentials_file) = Return (''153827'', ''s3cr3t'')"
    using get_credentials_reads_or_exits [of _ _ credentials_file _
            "[''client_id'' \<mapsto> ''153827'', ''client_secret'' \<mapsto> ''s3cr3t'']" "''153827''" "''s3cr3t''"]
          r2
    by simp
  have g1: "get_credentials (Inr [hd credentials_file]) = Exit 1"
    using get_credentials_reads_or_exits [of _ _ "[hd credentials_file]" _
            "[''client_id'' \<mapsto> ''153827'']"] r1
    by simp
  from r2 g2 r1 g1 show ?thesis by simp
qed

text \<open>
  C9. The function returns only when every line that contains \<open>=\<close> contains it once,
  so that the split has two parts; a line with a second \<open>=\<close>, in the value say, ends the
  process with exit code 1; and lines without \<open>=\<close> are skipped, the result being that of
  the file without them.
\<close>

theorem get_credentials_single_equals:
  "(get_credentials (Inr lines) = Return r \<longrightarrow>
      (\<forall>l \<in> set lines. CHR ''='' \<in> set l \<longrightarrow>
         length (str_split CHR ''='' (strip l)) = 2 \<and> count_list l CHR ''='' = 1))
   \<and> (l \<in> set lines \<and> 2 \<le> count_list l CHR ''='' \<longrightarrow> get_credentials (Inr lines) = Exit 1)
   \<and> get_credentials (Inr lines) = get_credentials (Inr [l \<leftarrow> lines. CHR ''='' \<in> set l])"
proof -
  have once: "length (str_split CHR ''='' (strip l)) = 2 \<and> count_list l CHR ''='' = 1"
    if "get_credentials (Inr lines) = Return r" "l \<in> set lines" "CHR ''='' \<in> set l" for r l
  proof -
    from that(1) obtain m where "read_lines lines Map.empty = Inr m"
      by (auto simp: get_credentials_Return)
    from read_lines_two_parts [OF this that(2,3)]
    show ?thesis by (simp add: length_str_split count_list_strip)
  qed
  have twice: "get_credentials (Inr lines) = Exit 1"
    if "l \<in> set lines \<and> 2 \<le> count_list l CHR ''=''"
  proof -
    from that have "CHR ''='' \<in> set l" by (cases "CHR ''='' \<in> set l") auto
    with once that have "get_credentials (Inr lines) \<noteq> Return r" for r by fastforce
    with get_credentials_cases [of "Inr lines"] show ?thesis by blast
  qed
  have skip: "get_credentials (Inr lines) = get_credentials (Inr [l \<leftarrow> lines. CHR ''='' \<in> set l])"
    using read_lines_skip [of lines Map.empty]
    by (simp add: get_credentials_def try_get_credentials_def)
  from once twice skip show ?thesis by blast
qed

text \<open>
  An instance: a secret that ends in \<open>==\<close> makes the process exit, and a file with a
  comment and a blank line reads as the file of its two key lines.
\<close>

theorem get_credentials_single_equals_witness:
  "padded_secret_file ! 1 \<in> set padded_secret_file
   \<and> count_list (padded_secret_file ! 1) CHR ''='' = 3
   \<and> get_credentials (Inr padded_secret_file) = Exit 1
   \<and> [l \<leftarrow> commented_file. CHR ''='' \<in> set l] = credentials_file
   \<and> get_credentials (Inr commented_file) = Return (''153827'', ''s3cr3t'')
   \<and> count_list (commented_file ! 1) CHR ''='' = 1"
proof -
  have m: "padded_secret_file ! 1 \<in> set padded_secret_file"
    by (simp add: padded_secret_file_def)
  have c: "count_list (padded_secret_file ! 1) CHR ''='' = 3"
    by code_simp
  have e: "get_credentials (Inr padded_secret_file) = Exit 1"
    using get_credentials_single_equals [of padded_secret_file _ "padded_secret_file ! 1"] m c
    by simp
  have f: "[l \<leftarrow> commented_file. CHR ''='' \<in> set l] = credentials_file"
    by code_simp
  have g: "get_credentials (Inr credentials_file) = Return (''153827'', ''s3cr3t'')"
    by code_simp
  have r: "get_credentials (Inr commented_file) = Return (''153827'', ''s3cr3t'')"
    using get_credentials_single_equals [of commented_file] f g by simp
  have m1: "commented_file ! 1 \<in> set commented_file" "CHR ''='' \<in> set (commented_file ! 1)"
    by (simp_all add: commented_file_def)
  have "count_list (commented_file ! 1) CHR ''='' = 1"
    using get_credentials_single_equals [of commented_file "(''153827'', ''s3cr3t'')"] r m1
    by blast
  with m c e f r show ?thesis by simp
qed

section \<open>The OAuth handshake\<close>

text \<open>
  C8. \<^verbatim>\<open>get_access_token\<close> serves the first request that arrives and no other: its
  result is that of the first request alone, and the later ones stay unserved. When
  that request has no \<^verbatim>\<open>code\<close> parameter, or is not a GET request, the function
  returns \<^verbatim>\<open>None\<close>. When it has one (\<^verbatim>\<open>parse_qs\<close> keeps no blank value, so the code is
  not empty), the function posts the client id, the client secret, the code and
  \<^verbatim>\<open>grant_type=authorization_code\<close> to the token endpoint and returns the parsed
  payload, or lets the exception of the request through.
\<close>

theorem get_access_token_one_request:
  "(\<exists>res. get_access_token client_id client_secret (r # pending) post = Some (res, pending)
           \<and> get_access_token client_id client_secret [r] post = Some (res, []))
   \<and> (params ''code'' = None \<longrightarrow>
        get_access_token client_id client_secret (GET params # pending) post
          = Some (Inr None, pending))
   \<and> get_access_token client_id client_secret (OtherMethod # pending) post
        = Some (Inr None, pending)
   \<and> (params ''code'' = Some (code # others) \<and> code \<noteq> [] \<longrightarrow>
        get_access_token client_id client_secret (GET params # pending) post
          = Some (case post ''https://www.strava.com/oauth/token''
                         [(''client_id'', client_id), (''client_secret'', client_secret),
                          (''code'', code), (''grant_type'', ''authorization_code'')] of
                    Inl e \<Rightarrow> Inl e
                  | Inr payload \<Rightarrow> Inr (Some payload),
                  pending))"
proof (intro conjI impI)
  show "\<exists>res. get_access_token client_id client_secret (r # pending) post = Some (res, pending)
           \<and> get_access_token client_id client_secret [r] post = Some (res, [])"
    by (simp add: get_access_token_def)
  show "get_access_token client_id client_secret (GET params # pending) post
          = Some (Inr None, pending)" if "params ''code'' = None"
    using that by (simp add: get_access_token_def handle_request_def do_GET_def)
  show "get_access_token client_id client_secret (OtherMethod # pending) post
        = Some (Inr None, pending)"
    by (simp add: get_access_token_def handle_request_def)
  show "get_access_token client_id client_secret (GET params # pending) post
          = Some (case post ''https://www.strava.com/oauth/token''
                         [(''client_id'', client_id), (''client_secret'', client_secret),
                          (''code'', code), (''grant_type'', ''authorization_code'')] of
                    Inl e \<Rightarrow> Inl e
                  | Inr payload \<Rightarrow> Inr (Some payload),
                  pending)"
    if "params ''code'' = Some (code # others) \<and> code \<noteq> []"
    using that by (simp add: get_access_token_def handle_request_def do_GET_def token_url_def)
qed

text \<open>
  An instance: an approved callback, followed by the browser's request for an icon,
  yields the payload and leaves the second request unserved; a denied callback yields
  \<^verbatim>\<open>None\<close>.
\<close>

theorem get_access_token_one_request_witness:
  "approved_params ''code'' = Some [''4f1c9a'']
   \<and> get_access_token ''153827'' ''s3cr3t'' [GET approved_params, GET Map.empty] token_endpoint
       = Some (Inr (Some ''{access_token, refresh_token, expires_at}''), [GET Map.empty])
   \<and> denied_params ''code'' = None
   \<and> get_access_token ''153827'' ''s3cr3t'' [GET denied_params] token_endpoint
       = Some (Inr None, [])"
proof -
  have a: "approved_params ''code'' = Some [''4f1c9a'']"
    by (simp add: approved_params_def)
  have d: "denied_params ''code'' = None"
    by (simp add: denied_params_def)
  have p: "token_endpoint ''https://www.strava.com/oauth/token''
             [(''client_id'', ''153827''), (''client_secret'', ''s3cr3t''),
              (''code'', ''4f1c9a''), (''grant_type'', ''authorization_code'')]
           = Inr ''{access_token, refresh_token, expires_at}''"
    by (simp add: token_endpoint_def)
  have "get_access_token ''153827'' ''s3cr3t'' [GET approved_params, GET Map.empty] token_endpoint
       = Some (Inr (Some ''{access_token, refresh_token, expires_at}''), [GET Map.empty])"
    using get_access_token_one_request [of "''153827''" "''s3cr3t''" _ "[GET Map.empty]"
            token_endpoint approved_params "''4f1c9a''" "[]"] a p
    by simp
  moreover
  have "get_access_token ''153827'' ''s3cr3t'' [GET denied_params] token_endpoint
       = Some (Inr None, [])"
    using get_access_token_one_request [of "''153827''" "''s3cr3t''" _ "[]"
            token_endpoint denied_params] d
    by simp
  ultimately show ?thesis using a d by simp
qed

end
